theory Spec2Isabelle
  imports
    Complex_Main
    "HOL-Library.Sublist"
    "HOL-Library.Multiset"
    "HOL-Library.Char_ord"
    "HOL-Library.List_Lexorder"
begin

section \<open>Data model\<close>

text \<open>
  The rows the pages work on, as the queries of \<^verbatim>\<open>src/pages/Referrals.tsx\<close> and
  \<^verbatim>\<open>src/hooks/useDashboardMetrics.ts\<close> return them. A column that may be \<^verbatim>\<open>null\<close> or
  \<^verbatim>\<open>undefined\<close> is an \<open>option\<close>; the joined patient of an order is the field
  \<open>patients\<close>; the primary key \<^verbatim>\<open>id\<close> is the field \<open>pid\<close> of a patient and \<open>order_id\<close> of an
  order. The JSON object \<^verbatim>\<open>document_status\<close> is a map from document keys to
  status strings. A denial row is represented by its \<^verbatim>\<open>order_id\<close>, the only column the
  dashboard query selects.
\<close>

record Patient =
  pid :: string
  name :: "string option"
  dob :: "string option"
  primary_insurance :: "string option"
  required_documents :: "string list option"

record history_row =
  previous_stage :: "string option"
  new_stage :: "string option"

record Order =
  order_id :: string
  patient_id :: string
  is_archived :: "bool option"
  patients :: "Patient option"
  workflow_stage :: "string option"
  last_stage_note :: "string option"
  last_stage_change :: "string option"
  stoplight_status :: "string option"
  referral_date :: "string option"
  document_status :: "(string \<rightharpoonup> string) option"
  payer_region :: "string option"
  rep_name :: "string option"
  created_at :: string
  denials :: "string list option"
  workflow_history :: "history_row list option"

text \<open>
  The advanced-filter object: the eleven properties the Referrals page destructures,
  each an optional string.
\<close>

record AdvancedFilters =
  af_firstName :: "string option"
  af_lastName :: "string option"
  af_dob :: "string option"
  af_insurance :: "string option"
  af_dateStart :: "string option"
  af_dateEnd :: "string option"
  af_workflowStage :: "string option"
  af_docFilterKey :: "string option"
  af_docFilterStatus :: "string option"
  af_payer_region :: "string option"
  af_rep_name :: "string option"

text \<open>
  What the filter pipeline of the Referrals page depends on besides the fetched rows:
  the \<^verbatim>\<open>archive_status\<close> and \<^verbatim>\<open>account\<close> URL parameters and the component state.
\<close>

record criteria =
  archive_status :: "string option"
  accountFilter :: "string option"
  activeFilters :: "string list"
  stoplightFilter :: "string option"
  advancedFilters :: AdvancedFilters
  debouncedTerm :: string

text \<open>
  The functions of the JavaScript runtime the code calls are parameters of the model:
  \<^item> \<open>new_Date s\<close> is the time value of \<^verbatim>\<open>new Date(s)\<close> in milliseconds since the epoch,
    \<open>None\<close> for an Invalid Date;
  \<^item> \<open>toISODate t\<close> is \<^verbatim>\<open>toISOString().split('T')[0]\<close> of a valid date with time value \<open>t\<close>;
  \<^item> \<open>localTZA t isUTC\<close> is the offset of the local time zone from UTC in milliseconds,
    as the language defines it: the offset in force at the UTC time value \<open>t\<close> when
    \<open>isUTC\<close> holds, and the offset in force at the local time value \<open>t\<close> otherwise (daylight
    saving time makes the offset depend on \<open>t\<close>);
  \<^item> \<open>toLowerCase\<close> and \<open>trim\<close> are the string methods of these names;
  \<^item> \<open>localeCompare a b\<close> is \<^verbatim>\<open>a.localeCompare(b)\<close>.
\<close>

record js_env =
  new_Date :: "string \<Rightarrow> int option"
  toISODate :: "int \<Rightarrow> string"
  localTZA :: "int \<Rightarrow> bool \<Rightarrow> int"
  toLowerCase :: "string \<Rightarrow> string"
  trim :: "string \<Rightarrow> string"
  localeCompare :: "string \<Rightarrow> string \<Rightarrow> int"

datatype error = RangeError

section \<open>JavaScript idioms\<close>

text \<open>A string value is truthy when it is neither \<^verbatim>\<open>null\<close>/\<^verbatim>\<open>undefined\<close> nor empty.\<close>

definition truthy :: "string option \<Rightarrow> bool" where
  "truthy v = (case v of None \<Rightarrow> False | Some s \<Rightarrow> s \<noteq> [])"

text \<open>\<^verbatim>\<open>v && f(v)\<close> for an optional string \<open>v\<close>, read as a condition.\<close>

definition when_truthy :: "string option \<Rightarrow> (string \<Rightarrow> bool) \<Rightarrow> bool" where
  "when_truthy v f = (case v of None \<Rightarrow> False | Some s \<Rightarrow> s \<noteq> [] \<and> f s)"

text \<open>\<^verbatim>\<open>s.includes(t)\<close> on strings: \<open>t\<close> occurs in \<open>s\<close> as a contiguous substring.\<close>

definition str_includes :: "string \<Rightarrow> string \<Rightarrow> bool" where
  "str_includes s t = sublist t s"

text \<open>\<^verbatim>\<open>v?.toLowerCase().includes(t)\<close>: \<^verbatim>\<open>undefined\<close> (falsy) when \<open>v\<close> is missing.\<close>

definition lowerIncludes :: "js_env \<Rightarrow> string option \<Rightarrow> string \<Rightarrow> bool" where
  "lowerIncludes env v t = (case v of None \<Rightarrow> False | Some s \<Rightarrow> str_includes (toLowerCase env s) t)"

text \<open>\<^verbatim>\<open>s.split(c)\<close> for a one-character separator.\<close>

fun split_on :: "char \<Rightarrow> string \<Rightarrow> string list" where
  "split_on c [] = [] # []"
| "split_on c (x # xs) =
     (if x = c then [] # split_on c xs
      else (case split_on c xs of [] \<Rightarrow> [x] # [] | w # ws \<Rightarrow> (x # w) # ws))"

text \<open>
  \<^verbatim>\<open>a < b\<close> on two Date objects compares their time values; a comparison with an Invalid
  Date (NaN) is false.
\<close>

definition date_lt :: "int option \<Rightarrow> int option \<Rightarrow> bool" where
  "date_lt a b = (case (a, b) of (Some x, Some y) \<Rightarrow> x < y | _ \<Rightarrow> False)"

definition date_le :: "int option \<Rightarrow> int option \<Rightarrow> bool" where
  "date_le a b = (case (a, b) of (Some x, Some y) \<Rightarrow> x \<le> y | _ \<Rightarrow> False)"

definition msPerDay :: int where
  "msPerDay = 86400000"

text \<open>
  The operations on time values that \<^verbatim>\<open>setHours\<close> is defined by in the language
  standard: local time of a UTC time value and back, the day number of a time value, and
  the time value of a day and a time within the day. \<open>TimeClip\<close> gives an Invalid Date
  outside the range of 100 million days around the epoch.
\<close>

definition LocalTime :: "js_env \<Rightarrow> int \<Rightarrow> int" where
  "LocalTime env t = t + localTZA env t True"

definition UTC :: "js_env \<Rightarrow> int \<Rightarrow> int" where
  "UTC env t = t - localTZA env t False"

definition Day :: "int \<Rightarrow> int" where
  "Day t = t div msPerDay"

definition MakeTime :: "int \<Rightarrow> int \<Rightarrow> int \<Rightarrow> int \<Rightarrow> int" where
  "MakeTime hour minute sec ms = hour * 3600000 + minute * 60000 + sec * 1000 + ms"

definition MakeDate :: "int \<Rightarrow> int \<Rightarrow> int" where
  "MakeDate day time = day * msPerDay + time"

definition TimeClip :: "int \<Rightarrow> int option" where
  "TimeClip time = (if \<bar>time\<bar> > 8640000000000000 then None else Some time)"

text \<open>
  \<^verbatim>\<open>d.setHours(23, 59, 59, 999)\<close>: the date becomes the time 23:59:59.999 of the local
  calendar day of \<open>d\<close>, converted back to UTC with the offset in force at that local time;
  an Invalid Date stays invalid.
\<close>

definition setHours_endOfDay :: "js_env \<Rightarrow> int option \<Rightarrow> int option" where
  "setHours_endOfDay env d =
     (case d of None \<Rightarrow> None
      | Some thisTime \<Rightarrow>
          let t = LocalTime env thisTime;
              date = MakeDate (Day t) (MakeTime 23 59 59 999)
          in TimeClip (UTC env date))"

text \<open>
  \<^verbatim>\<open>xs.filter(p)\<close> for a callback that can throw: the first exception ends the call.
\<close>

fun filter_throw :: "('a \<Rightarrow> error + bool) \<Rightarrow> 'a list \<Rightarrow> error + 'a list" where
  "filter_throw p [] = Inr []"
| "filter_throw p (x # xs) =
     (case p x of Inl e \<Rightarrow> Inl e
      | Inr b \<Rightarrow> (case filter_throw p xs of Inl e \<Rightarrow> Inl e
                  | Inr ys \<Rightarrow> Inr (if b then x # ys else ys)))"

text \<open>
  \<^verbatim>\<open>xs.sort(cmp)\<close>: the sort of the language is stable, and \<open>cmp a b \<le> 0\<close> keeps \<open>a\<close> before
  \<open>b\<close>. For a consistent comparator a stable sort has one result, computed here by
  insertion from the right.
\<close>

fun insert_sorted :: "('a \<Rightarrow> 'a \<Rightarrow> int) \<Rightarrow> 'a \<Rightarrow> 'a list \<Rightarrow> 'a list" where
  "insert_sorted cmp x [] = [x]"
| "insert_sorted cmp x (y # ys) =
     (if cmp x y \<le> 0 then x # y # ys else y # insert_sorted cmp x ys)"

fun array_sort :: "('a \<Rightarrow> 'a \<Rightarrow> int) \<Rightarrow> 'a list \<Rightarrow> 'a list" where
  "array_sort cmp [] = []"
| "array_sort cmp (x # xs) = insert_sorted cmp x (array_sort cmp xs)"

section \<open>The filter pipeline of the Referrals page\<close>

text \<open>
  \<^verbatim>\<open>archiveFilter\<close> (Referrals.tsx, line 45): the URL parameter when it is one of the three
  modes, \<^verbatim>\<open>'active'\<close> otherwise.
\<close>

definition archiveFilter :: "string option \<Rightarrow> string" where
  "archiveFilter archiveFilterParam =
     (case archiveFilterParam of None \<Rightarrow> ''active''
      | Some p \<Rightarrow> if p \<noteq> [] \<and> p \<in> set [''active'', ''archived'', ''all''] then p else ''active'')"

text \<open>\<^verbatim>\<open>Object.values(advancedFilters).some(v => v)\<close> (line 119).\<close>

definition anyAdvanced :: "AdvancedFilters \<Rightarrow> bool" where
  "anyAdvanced af =
     (truthy (af_firstName af) \<or> truthy (af_lastName af) \<or> truthy (af_dob af) \<or>
      truthy (af_insurance af) \<or> truthy (af_dateStart af) \<or> truthy (af_dateEnd af) \<or>
      truthy (af_workflowStage af) \<or> truthy (af_docFilterKey af) \<or>
      truthy (af_docFilterStatus af) \<or> truthy (af_payer_region af) \<or>
      truthy (af_rep_name af))"

text \<open>
  Lines 127 to 130: with a date-of-birth filter and a patient date of birth, the ISO day
  of the patient's date is compared with the filter. \<^verbatim>\<open>toISOString\<close> throws a RangeError
  on an Invalid Date. The result \<open>Inr True\<close> says that the order is rejected.
\<close>

definition dobMismatch :: "js_env \<Rightarrow> string option \<Rightarrow> string option \<Rightarrow> error + bool" where
  "dobMismatch env dobFilter patientDobField =
     (case dobFilter of None \<Rightarrow> Inr False
      | Some d \<Rightarrow>
         (case patientDobField of None \<Rightarrow> Inr False
          | Some pd \<Rightarrow>
             if d \<noteq> [] \<and> pd \<noteq> [] then
               (case new_Date env pd of None \<Rightarrow> Inl RangeError
                | Some t \<Rightarrow> Inr (toISODate env t \<noteq> d))
             else Inr False))"

text \<open>Lines 132 to 137: the insurance list.\<close>

definition insuranceRejects :: "js_env \<Rightarrow> string option \<Rightarrow> Patient \<Rightarrow> bool" where
  "insuranceRejects env insurance patient =
     when_truthy insurance (\<lambda>ins.
       let insuranceList = map (\<lambda>i. trim env (toLowerCase env i)) (split_on CHR '','' ins)
       in \<not> when_truthy (primary_insurance patient)
               (\<lambda>pi. toLowerCase env pi \<in> set insuranceList))"

text \<open>Lines 139 to 147: the referral-date range.\<close>

definition dateStartRejects :: "js_env \<Rightarrow> string option \<Rightarrow> Order \<Rightarrow> bool" where
  "dateStartRejects env dateStart order =
     when_truthy dateStart (\<lambda>ds. when_truthy (referral_date order)
       (\<lambda>rd. date_lt (new_Date env rd) (new_Date env ds)))"

definition dateEndRejects :: "js_env \<Rightarrow> string option \<Rightarrow> Order \<Rightarrow> bool" where
  "dateEndRejects env dateEnd order =
     when_truthy dateEnd (\<lambda>de. when_truthy (referral_date order)
       (\<lambda>rd. let endDate = setHours_endOfDay env (new_Date env de)
             in date_lt endDate (new_Date env rd)))"

text \<open>Lines 151 to 158: the document requirement.\<close>

definition docRejects :: "string option \<Rightarrow> string option \<Rightarrow> Order \<Rightarrow> bool" where
  "docRejects docFilterKey docFilterStatus order =
     when_truthy docFilterKey (\<lambda>k. when_truthy docFilterStatus (\<lambda>st.
       let isRequired =
             (case patients order of None \<Rightarrow> False
              | Some p \<Rightarrow> (case required_documents p of None \<Rightarrow> False
                          | Some ds \<Rightarrow> k \<in> set ds));
           isComplete =
             (case document_status order of None \<Rightarrow> False
              | Some m \<Rightarrow> m k = Some ''Complete'')
       in (st = ''Complete'' \<and> \<not> isComplete) \<or>
          (st = ''Missing'' \<and> (\<not> isRequired \<or> isComplete)) \<or>
          (st = ''Not Required'' \<and> isRequired)))"

text \<open>
  The callback of the advanced filter (lines 120 to 164), with its early returns in the
  order of the source.
\<close>

definition advancedFilterPredicate :: "js_env \<Rightarrow> AdvancedFilters \<Rightarrow> Order \<Rightarrow> error + bool" where
  "advancedFilterPredicate env af order =
     (case patients order of None \<Rightarrow> Inr False
      | Some patient \<Rightarrow>
         if when_truthy (af_firstName af)
              (\<lambda>firstName. \<not> lowerIncludes env (name patient) (toLowerCase env firstName))
         then Inr False
         else if when_truthy (af_lastName af)
              (\<lambda>lastName. \<not> lowerIncludes env (name patient) (toLowerCase env lastName))
         then Inr False
         else (case dobMismatch env (af_dob af) (dob patient) of
                 Inl e \<Rightarrow> Inl e
               | Inr mismatch \<Rightarrow>
                   if mismatch then Inr False
                   else if insuranceRejects env (af_insurance af) patient then Inr False
                   else if dateStartRejects env (af_dateStart af) order then Inr False
                   else if dateEndRejects env (af_dateEnd af) order then Inr False
                   else if when_truthy (af_workflowStage af)
                             (\<lambda>workflowStage. workflow_stage order \<noteq> Some workflowStage)
                   then Inr False
                   else if docRejects (af_docFilterKey af) (af_docFilterStatus af) order
                   then Inr False
                   else if when_truthy (af_payer_region af)
                             (\<lambda>r. payer_region order \<noteq> Some r)
                   then Inr False
                   else if when_truthy (af_rep_name af) (\<lambda>r. rep_name order \<noteq> Some r)
                   then Inr False
                   else Inr True))"

text \<open>The callback of the free-text search (lines 169 to 173).\<close>

definition searchPredicate :: "js_env \<Rightarrow> string \<Rightarrow> Order \<Rightarrow> bool" where
  "searchPredicate env lowercasedTerm order =
     (lowerIncludes env (case patients order of None \<Rightarrow> None | Some p \<Rightarrow> name p) lowercasedTerm \<or>
      lowerIncludes env (case patients order of None \<Rightarrow> None | Some p \<Rightarrow> primary_insurance p)
        lowercasedTerm \<or>
      lowerIncludes env (workflow_stage order) lowercasedTerm)"

text \<open>The callback of the archive filter (lines 100 to 104).\<close>

definition archivePredicate :: "string \<Rightarrow> Order \<Rightarrow> bool" where
  "archivePredicate mode order =
     (if mode = ''active'' then is_archived order \<noteq> Some True
      else if mode = ''archived'' then is_archived order = Some True
      else True)"

text \<open>The value of \<^verbatim>\<open>filtered\<close> before the final sort (lines 100 to 174).\<close>

definition filtered :: "js_env \<Rightarrow> criteria \<Rightarrow> Order list \<Rightarrow> error + Order list" where
  "filtered env c allOrders =
     (let f0 = filter (archivePredicate (archiveFilter (archive_status c))) allOrders;
          f1 = (if truthy (accountFilter c)
                then filter (\<lambda>order. case patients order of None \<Rightarrow> False
                                      | Some p \<Rightarrow> primary_insurance p = accountFilter c) f0
                else f0);
          f2 = (if length (activeFilters c) > 0
                then filter (\<lambda>order. when_truthy (workflow_stage order)
                                        (\<lambda>s. s \<in> set (activeFilters c))) f1
                else f1);
          f3 = (if truthy (stoplightFilter c)
                then filter (\<lambda>order. stoplight_status order = stoplightFilter c) f2
                else f2)
      in case (if anyAdvanced (advancedFilters c)
               then filter_throw (advancedFilterPredicate env (advancedFilters c)) f3
               else Inr f3) of
           Inl e \<Rightarrow> Inl e
         | Inr f4 \<Rightarrow>
             Inr (if debouncedTerm c \<noteq> []
                  then filter (searchPredicate env (toLowerCase env (debouncedTerm c))) f4
                  else f4))"

text \<open>The name an order is sorted by: \<^verbatim>\<open>a.patients?.name || ''\<close>.\<close>

definition sortName :: "Order \<Rightarrow> string" where
  "sortName a = (case patients a of None \<Rightarrow> []
                 | Some p \<Rightarrow> (case name p of None \<Rightarrow> [] | Some n \<Rightarrow> n))"

definition compareOrders :: "js_env \<Rightarrow> Order \<Rightarrow> Order \<Rightarrow> int" where
  "compareOrders env a b = localeCompare env (sortName a) (sortName b)"

text \<open>The memoised value \<^verbatim>\<open>orders\<close> (lines 97 to 177).\<close>

definition orders :: "js_env \<Rightarrow> criteria \<Rightarrow> Order list option \<Rightarrow> error + Order list" where
  "orders env c allOrders =
     (case allOrders of None \<Rightarrow> Inr []
      | Some all \<Rightarrow>
          (case filtered env c all of Inl e \<Rightarrow> Inl e
           | Inr f \<Rightarrow> Inr (array_sort (compareOrders env) f)))"

section \<open>Workflow stages and regressions\<close>

text \<open>The position of the first occurrence of a value in a list.\<close>

fun indexOf :: "'a list \<Rightarrow> 'a \<Rightarrow> nat option" where
  "indexOf [] x = None"
| "indexOf (y # ys) x = (if x = y then Some 0 else map_option Suc (indexOf ys x))"

text \<open>
  Modelled from the spec: the function \<^verbatim>\<open>isBackward\<close> of \<^verbatim>\<open>src/lib/utils\<close>, which is not among
  the sources; only its call sites are. The spec says that a fixed ordered list of named
  stages defines a total order and that a transition is a regression iff the index of
  the new stage in that order is strictly less than the index of the current stage. The
  list of stages is the parameter \<open>stages\<close>; a stage that is missing or not in the list
  has no index, and a transition from or to it is not a regression.
\<close>

definition isBackward :: "string list \<Rightarrow> string option \<Rightarrow> string option \<Rightarrow> bool" where
  "isBackward stages currentStage newStage =
     (case currentStage of None \<Rightarrow> False
      | Some cur \<Rightarrow>
         (case newStage of None \<Rightarrow> False
          | Some new \<Rightarrow>
             (case indexOf stages cur of None \<Rightarrow> False
              | Some i \<Rightarrow>
                 (case indexOf stages new of None \<Rightarrow> False
                  | Some j \<Rightarrow> j < i))))"

text \<open>
  The tables a stage change writes. The rows of \<^verbatim>\<open>patient_notes\<close> and \<^verbatim>\<open>regressions\<close> have
  the columns the two handlers send.
\<close>

record note_row =
  note_patient_id :: string
  body :: string
  source :: string
  stage_from :: "string option"
  stage_to :: "string option"

record regression_row =
  reg_order_id :: string
  reason :: string
  reg_notes :: string
  reg_previous_stage :: "string option"
  reg_new_stage :: string
  user_id :: "string option"

record db =
  orders_tbl :: "Order list"
  patient_notes :: "note_row list"
  regressions :: "regression_row list"

text \<open>The argument of \<^verbatim>\<open>handleStageSave\<close>.\<close>

record stage_change =
  newStage :: string
  save_note :: string
  regressionReason :: "string option"

text \<open>
  How the backend answers the two requests that come before the insert: whether the
  update of the order returns an error, and whether \<^verbatim>\<open>apiAddNote\<close> (of \<^verbatim>\<open>src/api/notes.api\<close>,
  not among the sources) throws. When it does not throw, \<^verbatim>\<open>apiAddNote\<close> is taken to add its
  argument to \<^verbatim>\<open>patient_notes\<close>.
\<close>

record responses =
  orderError :: bool
  addNoteThrows :: bool

text \<open>\<^verbatim>\<open>supabase.from('orders').update({...}).eq('id', id)\<close> of the two handlers.\<close>

definition update_stage :: "string \<Rightarrow> string \<Rightarrow> string \<Rightarrow> string \<Rightarrow> db \<Rightarrow> db" where
  "update_stage oid stage stageNote now d =
     d \<lparr> orders_tbl :=
           map (\<lambda>row. if order_id row = oid
                       then row \<lparr> workflow_stage := Some stage, last_stage_note := Some stageNote,
                                  last_stage_change := Some now \<rparr>
                       else row) (orders_tbl d) \<rparr>"

text \<open>
  \<^verbatim>\<open>handleStageSave\<close> of the Referrals page (Referrals.tsx, lines 237 to 278), as a function
  on the tables: \<open>now\<close> is the current time as an ISO string and \<open>user\<close> the id of the
  signed-in user. Toasts, cache invalidation and the closing of the modal do not touch
  the tables and are left out.
\<close>

definition handleStageSave ::
  "string list \<Rightarrow> responses \<Rightarrow> string \<Rightarrow> string option \<Rightarrow> Order option \<Rightarrow> stage_change \<Rightarrow>
   db \<Rightarrow> db" where
  "handleStageSave stages resp now user selectedOrder args d =
     (case selectedOrder of None \<Rightarrow> d
      | Some sel \<Rightarrow>
         (case patients sel of None \<Rightarrow> d
          | Some _ \<Rightarrow>
             let isRegression = isBackward stages (workflow_stage sel) (Some (newStage args))
             in if orderError resp then d
                else let d1 = update_stage (order_id sel) (newStage args) (save_note args) now d
                     in if addNoteThrows resp then d1
                        else let d2 = d1 \<lparr> patient_notes := patient_notes d1 @
                                   [\<lparr> note_patient_id = patient_id sel, body = save_note args,
                                      source = ''stage_change'',
                                      stage_from = workflow_stage sel,
                                      stage_to = Some (newStage args) \<rparr>] \<rparr>
                             in if isRegression \<and> truthy (regressionReason args)
                                then d2 \<lparr> regressions := regressions d2 @
                                       [\<lparr> reg_order_id = order_id sel,
                                          reason = (case regressionReason args of
                                                      None \<Rightarrow> [] | Some r \<Rightarrow> r),
                                          reg_notes = save_note args,
                                          reg_previous_stage = workflow_stage sel,
                                          reg_new_stage = newStage args,
                                          user_id = user \<rparr>] \<rparr>
                                else d2))"

text \<open>
  \<^verbatim>\<open>handleStageSave\<close> of the patient detail page (the same file, lines 971 to 1008): the
  order and the patient come from one query, and the note carries the id of the patient.
\<close>

definition handleStageSave_detail ::
  "string list \<Rightarrow> responses \<Rightarrow> string \<Rightarrow> string option \<Rightarrow> Order option \<Rightarrow> Patient option \<Rightarrow>
   stage_change \<Rightarrow> db \<Rightarrow> db" where
  "handleStageSave_detail stages resp now user order patient args d =
     (case order of None \<Rightarrow> d
      | Some ord \<Rightarrow>
         (case patient of None \<Rightarrow> d
          | Some pat \<Rightarrow>
             let isRegression = isBackward stages (workflow_stage ord) (Some (newStage args))
             in if orderError resp then d
                else let d1 = update_stage (order_id ord) (newStage args) (save_note args) now d
                     in if addNoteThrows resp then d1
                        else let d2 = d1 \<lparr> patient_notes := patient_notes d1 @
                                   [\<lparr> note_patient_id = pid pat, body = save_note args,
                                      source = ''stage_change'',
                                      stage_from = workflow_stage ord,
                                      stage_to = Some (newStage args) \<rparr>] \<rparr>
                             in if isRegression \<and> truthy (regressionReason args)
                                then d2 \<lparr> regressions := regressions d2 @
                                       [\<lparr> reg_order_id = order_id ord,
                                          reason = (case regressionReason args of
                                                      None \<Rightarrow> [] | Some r \<Rightarrow> r),
                                          reg_notes = save_note args,
                                          reg_previous_stage = workflow_stage ord,
                                          reg_new_stage = newStage args,
                                          user_id = user \<rparr>] \<rparr>
                                else d2))"

text \<open>
  A history of stage-change saves: each entry is a save from one of the two pages, with
  the answers of the backend, the time, the user and the rows the page holds.
\<close>

datatype save_event =
  ReferralsSave responses string "string option" "Order option" stage_change
| DetailSave responses string "string option" "Order option" "Patient option" stage_change

fun save :: "string list \<Rightarrow> save_event \<Rightarrow> db \<Rightarrow> db" where
  "save stages (ReferralsSave resp now user sel args) d =
     handleStageSave stages resp now user sel args d"
| "save stages (DetailSave resp now user ord pat args) d =
     handleStageSave_detail stages resp now user ord pat args d"

fun saves :: "string list \<Rightarrow> save_event list \<Rightarrow> db \<Rightarrow> db" where
  "saves stages [] d = d"
| "saves stages (e # es) d = saves stages es (save stages e d)"

text \<open>The stages a save moves between: the stage of the order the page holds, and the
  new stage.\<close>

fun event_from :: "save_event \<Rightarrow> string option" where
  "event_from (ReferralsSave resp now user sel args) =
     (case sel of None \<Rightarrow> None | Some s \<Rightarrow> workflow_stage s)"
| "event_from (DetailSave resp now user ord pat args) =
     (case ord of None \<Rightarrow> None | Some s \<Rightarrow> workflow_stage s)"

fun event_to :: "save_event \<Rightarrow> string" where
  "event_to (ReferralsSave resp now user sel args) = newStage args"
| "event_to (DetailSave resp now user ord pat args) = newStage args"

section \<open>Dashboard metrics\<close>

text \<open>
  Numbers are exact rationals in the model; the code computes with IEEE doubles. The
  metrics of one period, as \<^verbatim>\<open>calculateMetricsForPeriod\<close> returns them (the fields
  \<^verbatim>\<open>denials\<close> and \<^verbatim>\<open>regressions\<close> are \<open>denialCount\<close> and \<open>regressionCount\<close> here).
\<close>

record metrics =
  newReferrals :: nat
  readyForPar :: nat
  denialCount :: nat
  regressionCount :: nat
  docsCompletePercent :: rat
  avgAge :: rat

text \<open>\<^verbatim>\<open>o.patients?.required_documents || []\<close>.\<close>

definition requiredDocs :: "Order \<Rightarrow> string list" where
  "requiredDocs ord =
     (case patients ord of None \<Rightarrow> []
      | Some p \<Rightarrow> (case required_documents p of None \<Rightarrow> [] | Some ds \<Rightarrow> ds))"

text \<open>\<^verbatim>\<open>o.document_status?.[d] === 'Complete'\<close>.\<close>

definition docComplete :: "Order \<Rightarrow> string \<Rightarrow> bool" where
  "docComplete ord d =
     (case document_status ord of None \<Rightarrow> False | Some m \<Rightarrow> m d = Some ''Complete'')"

text \<open>
  \<^verbatim>\<open>calculateMetricsForPeriod\<close> (useDashboardMetrics.ts, lines 13 to 44). The bounds \<open>from\<close>
  and \<open>to\<close> are the time values of two valid dates. \<^verbatim>\<open>daysOld\<close> of \<^verbatim>\<open>src/lib/utils\<close> is not
  among the sources and is a parameter. A \<^verbatim>\<open>reduce\<close> is a left fold, and the size of the
  set of order ids is the length of the list without duplicates.
\<close>

definition calculateMetricsForPeriod ::
  "js_env \<Rightarrow> string list \<Rightarrow> (string \<Rightarrow> rat) \<Rightarrow> Order list \<Rightarrow> int \<Rightarrow> int \<Rightarrow> metrics" where
  "calculateMetricsForPeriod env stages daysOld ords from to =
     (let periodOrders =
            filter (\<lambda>ord. let createdAt = new_Date env (created_at ord)
                         in date_le (Some from) createdAt \<and> date_le createdAt (Some to)) ords;
          totalDocs = foldl (\<lambda>sum ord. sum + length (requiredDocs ord)) 0 periodOrders;
          completedDocs =
            foldl (\<lambda>sum ord. sum + length (filter (docComplete ord) (requiredDocs ord))) 0
              periodOrders
      in \<lparr> newReferrals = length periodOrders,
           readyForPar =
             length (filter (\<lambda>ord. length (requiredDocs ord) > 0 \<and>
                                  list_all (docComplete ord) (requiredDocs ord)) periodOrders),
           denialCount =
             length (remdups (concat (map (\<lambda>ord. case denials ord of None \<Rightarrow> [] | Some ds \<Rightarrow> ds)
                                        periodOrders))),
           regressionCount =
             length (filter (\<lambda>ord. case workflow_history ord of None \<Rightarrow> False
                                  | Some hs \<Rightarrow>
                                      list_ex (\<lambda>h. isBackward stages (previous_stage h)
                                                     (new_stage h)) hs) periodOrders),
           docsCompletePercent =
             (if totalDocs > 0 then (of_nat completedDocs / of_nat totalDocs) * 100 else 0),
           avgAge =
             (if length periodOrders > 0
              then foldl (\<lambda>sum ord. sum + daysOld (created_at ord)) 0 periodOrders /
                   of_nat (length periodOrders)
              else 0) \<rparr>)"

text \<open>\<^verbatim>\<open>calculateDelta\<close> (lines 79 to 82).\<close>

definition calculateDelta :: "rat \<Rightarrow> rat \<Rightarrow> rat" where
  "calculateDelta current prev =
     (if prev = 0 then (if current > 0 then 100 else 0)
      else ((current - prev) / prev) * 100)"

record kpi =
  val :: rat
  delta :: rat

record kpi_set =
  kpi_newReferrals :: kpi
  kpi_readyForPar :: kpi
  kpi_denials :: kpi
  kpi_regressions :: kpi
  kpi_docsCompletePercent :: kpi
  kpi_avgAge :: kpi

text \<open>
  The object \<^verbatim>\<open>kpis\<close> of \<^verbatim>\<open>useDashboardMetrics\<close> (lines 47 to 50 and 76 to 96): the metrics
  of the period and of the period of the same length before it, and their deltas.
\<close>

definition kpis ::
  "js_env \<Rightarrow> string list \<Rightarrow> (string \<Rightarrow> rat) \<Rightarrow> Order list \<Rightarrow> int \<Rightarrow> int \<Rightarrow> kpi_set" where
  "kpis env stages daysOld allOrders from to =
     (let periodDuration = to - from;
          prevFrom = from - periodDuration;
          prevTo = from - 1;
          currentMetrics = calculateMetricsForPeriod env stages daysOld allOrders from to;
          prevMetrics = calculateMetricsForPeriod env stages daysOld allOrders prevFrom prevTo
      in \<lparr> kpi_newReferrals =
             \<lparr> val = of_nat (newReferrals currentMetrics),
               delta = calculateDelta (of_nat (newReferrals currentMetrics))
                         (of_nat (newReferrals prevMetrics)) \<rparr>,
           kpi_readyForPar =
             \<lparr> val = of_nat (readyForPar currentMetrics),
               delta = calculateDelta (of_nat (readyForPar currentMetrics))
                         (of_nat (readyForPar prevMetrics)) \<rparr>,
           kpi_denials =
             \<lparr> val = of_nat (denialCount currentMetrics),
               delta = calculateDelta (of_nat (denialCount currentMetrics))
                         (of_nat (denialCount prevMetrics)) \<rparr>,
           kpi_regressions =
             \<lparr> val = of_nat (regressionCount currentMetrics),
               delta = calculateDelta (of_nat (regressionCount currentMetrics))
                         (of_nat (regressionCount prevMetrics)) \<rparr>,
           kpi_docsCompletePercent =
             \<lparr> val = docsCompletePercent currentMetrics,
               delta = docsCompletePercent currentMetrics - docsCompletePercent prevMetrics \<rparr>,
           kpi_avgAge =
             \<lparr> val = avgAge currentMetrics,
               delta = avgAge currentMetrics - avgAge prevMetrics \<rparr> \<rparr>)"

section \<open>Weekly trends\<close>

record bucket =
  week :: string
  New_Referrals :: nat
  Docs_Ready :: nat
  Archived :: nat

text \<open>
  The body of the loop of \<^verbatim>\<open>fetchTrendData\<close> (the Trends page in Referrals.tsx, lines 1184
  to 1198) on the map from week keys to buckets. \<^verbatim>\<open>getWeek\<close> of \<^verbatim>\<open>src/lib/utils\<close> is not
  among the sources and is a parameter.
\<close>

definition trendStep ::
  "js_env \<Rightarrow> (int option \<Rightarrow> string) \<Rightarrow> (string \<rightharpoonup> bucket) \<Rightarrow> Order \<Rightarrow> (string \<rightharpoonup> bucket)" where
  "trendStep env getWeek m ord =
     (let wk = getWeek (new_Date env (created_at ord));
          b0 = (case m wk of
                  None \<Rightarrow> \<lparr> week = wk, New_Referrals = 0, Docs_Ready = 0, Archived = 0 \<rparr>
                | Some b \<Rightarrow> b);
          b1 = b0 \<lparr> New_Referrals := New_Referrals b0 + 1 \<rparr>;
          required = requiredDocs ord;
          isReady = (length required > 0 \<and> list_all (docComplete ord) required);
          b2 = (if isReady then b1 \<lparr> Docs_Ready := Docs_Ready b1 + 1 \<rparr> else b1);
          b3 = (if is_archived ord = Some True then b2 \<lparr> Archived := Archived b2 + 1 \<rparr> else b2)
      in m(wk \<mapsto> b3))"

definition trendMap ::
  "js_env \<Rightarrow> (int option \<Rightarrow> string) \<Rightarrow> Order list \<Rightarrow> (string \<rightharpoonup> bucket)" where
  "trendMap env getWeek sourceData = foldl (trendStep env getWeek) Map.empty sourceData"

section \<open>Notions used in the statements\<close>

text \<open>
  What the language asks of a comparator for the result of a sort to be determined: the
  relation \<open>cmp a b \<le> 0\<close> is total and transitive.
\<close>

definition total_preorder :: "('a \<Rightarrow> 'a \<Rightarrow> int) \<Rightarrow> bool" where
  "total_preorder cmp \<longleftrightarrow>
     (\<forall>a b. cmp a b \<le> 0 \<or> cmp b a \<le> 0) \<and>
     (\<forall>a b c. cmp a b \<le> 0 \<longrightarrow> cmp b c \<le> 0 \<longrightarrow> cmp a c \<le> 0)"

text \<open>The four filters that come before the advanced filter, as one condition.\<close>

definition basicKeeps :: "criteria \<Rightarrow> Order \<Rightarrow> bool" where
  "basicKeeps c order \<longleftrightarrow>
     archivePredicate (archiveFilter (archive_status c)) order \<and>
     (truthy (accountFilter c) \<longrightarrow>
        (case patients order of None \<Rightarrow> False
         | Some p \<Rightarrow> primary_insurance p = accountFilter c)) \<and>
     (length (activeFilters c) > 0 \<longrightarrow>
        when_truthy (workflow_stage order) (\<lambda>s. s \<in> set (activeFilters c))) \<and>
     (truthy (stoplightFilter c) \<longrightarrow> stoplight_status order = stoplightFilter c)"

text \<open>An advanced-filter object with no property set, and one with only the document
  requirement set.\<close>

definition noFilters :: AdvancedFilters where
  "noFilters = \<lparr> af_firstName = None, af_lastName = None, af_dob = None,
     af_insurance = None, af_dateStart = None, af_dateEnd = None,
     af_workflowStage = None, af_docFilterKey = None, af_docFilterStatus = None,
     af_payer_region = None, af_rep_name = None \<rparr>"

definition docOnly :: "string \<Rightarrow> string \<Rightarrow> AdvancedFilters" where
  "docOnly k st = noFilters \<lparr> af_docFilterKey := Some k, af_docFilterStatus := Some st \<rparr>"


text \<open>
  An order is created in the window: the time value of its creation date is valid and
  lies between the two bounds.
\<close>

definition in_window :: "js_env \<Rightarrow> int \<Rightarrow> int \<Rightarrow> Order \<Rightarrow> bool" where
  "in_window env from to ord =
     (case new_Date env (created_at ord) of None \<Rightarrow> False | Some t \<Rightarrow> from \<le> t \<and> t \<le> to)"

text \<open>
  Readiness in the words of the claim, to be compared with the conditions of the code:
  the patient has at least one required document, and the status of every required
  document is \<^verbatim>\<open>'Complete'\<close>.
\<close>

definition ready_per_claim :: "Order \<Rightarrow> bool" where
  "ready_per_claim ord =
     (case patients ord of None \<Rightarrow> False
      | Some p \<Rightarrow>
         (case required_documents p of None \<Rightarrow> False
          | Some ds \<Rightarrow>
              ds \<noteq> [] \<and>
              (\<forall>d\<in>set ds. case document_status ord of None \<Rightarrow> False
                            | Some st \<Rightarrow> st d = Some ''Complete'')))"

section \<open>A concrete runtime and concrete rows for the examples\<close>

text \<open>
  A runtime in the UTC time zone: ASCII lower-casing, trimming of spaces, comparison of
  strings by code unit, and the time values of the date strings the examples use.
\<close>

definition lower_char :: "char \<Rightarrow> char" where
  "lower_char ch =
     (case map_of (zip ''ABCDEFGHIJKLMNOPQRSTUVWXYZ'' ''abcdefghijklmnopqrstuvwxyz'') ch of
        None \<Rightarrow> ch | Some l \<Rightarrow> l)"

definition example_dates :: "(string \<times> int) list" where
  "example_dates =
     [(''1990-01-01'', 631152000000),
      (''2024-01-05'', 1704412800000),
      (''2024-01-10'', 1704844800000),
      (''2024-01-15'', 1705276800000),
      (''2024-01-15T23:59:59.999Z'', 1705363199999),
      (''2024-01-16'', 1705363200000)]"

definition utc_env :: js_env where
  "utc_env = \<lparr>
     new_Date = map_of example_dates,
     toISODate = (\<lambda>t. case map_of (map (\<lambda>(s, v). (v, take 10 s)) example_dates) t of
                        None \<Rightarrow> [] | Some s \<Rightarrow> s),
     localTZA = (\<lambda>t isUTC. 0),
     toLowerCase = map lower_char,
     trim = (\<lambda>s. rev (dropWhile (\<lambda>ch. ch = CHR '' '') (rev (dropWhile (\<lambda>ch. ch = CHR '' '') s)))),
     localeCompare = (\<lambda>a b. if a = b then 0 else if a < b then - 1 else 1) \<rparr>"

definition no_criteria :: criteria where
  "no_criteria = \<lparr> archive_status = None, accountFilter = None, activeFilters = [],
     stoplightFilter = None, advancedFilters = noFilters, debouncedTerm = [] \<rparr>"

definition ann :: Patient where
  "ann = \<lparr> pid = ''p1'', name = Some ''Ann'', dob = Some ''1990-01-01'', primary_insurance = Some ''Aetna'',
     required_documents = Some [''FACE''] \<rparr>"

definition order1 :: Order where
  "order1 = \<lparr> order_id = ''o1'', patient_id = ''p1'', is_archived = Some False,
     patients = Some ann, workflow_stage = Some ''Docs'', last_stage_note = None,
     last_stage_change = None, stoplight_status = Some ''green'',
     referral_date = Some ''2024-01-15'',
     document_status = Some [''CMN'' \<mapsto> ''Complete''],
     payer_region = Some ''East'', rep_name = Some ''Kim'', created_at = ''2024-01-10'',
     denials = Some [], workflow_history = Some [] \<rparr>"

text \<open>More example rows: an order without a joined patient, an order whose patient has
  no date of birth and that has no referral date, and a state in which every criterion
  is active.\<close>

definition nopatient :: Order where
  "nopatient = order1 \<lparr> order_id := ''o2'', patient_id := ''p2'', patients := None \<rparr>"

definition bob :: Patient where
  "bob = \<lparr> pid = ''p3'', name = Some ''Bob'', dob = None, primary_insurance = Some ''Cigna'',
     required_documents = Some [] \<rparr>"

definition order3 :: Order where
  "order3 = order1 \<lparr> order_id := ''o3'', patient_id := ''p3'', patients := Some bob,
     referral_date := None \<rparr>"

definition all_criteria :: criteria where
  "all_criteria = \<lparr> archive_status = Some ''active'', accountFilter = Some ''Aetna'',
     activeFilters = [''Intake'', ''Docs''], stoplightFilter = Some ''green'',
     advancedFilters = \<lparr> af_firstName = Some ''AN'', af_lastName = Some ''nn'',
       af_dob = Some ''1990-01-01'', af_insurance = Some ''Cigna, Aetna'',
       af_dateStart = Some ''2024-01-10'', af_dateEnd = Some ''2024-01-15'',
       af_workflowStage = Some ''Docs'', af_docFilterKey = Some ''CMN'',
       af_docFilterStatus = Some ''Complete'', af_payer_region = Some ''East'',
       af_rep_name = Some ''Kim'' \<rparr>,
     debouncedTerm = ''aet'' \<rparr>"

definition order4 :: Order where
  "order4 = order1 \<lparr> order_id := ''o4'', is_archived := Some True \<rparr>"

definition order5 :: Order where
  "order5 = order3 \<lparr> order_id := ''o5'', is_archived := None \<rparr>"

text \<open>A list of stages, a state of the tables and three saves: one forward, one to
  the same stage and one backward.\<close>

definition example_stages :: "string list" where
  "example_stages = [''Intake'', ''Docs'', ''PAR'', ''Delivery'']"

definition db0 :: db where
  "db0 = \<lparr> orders_tbl = [order1], patient_notes = [], regressions = [] \<rparr>"

definition ok_responses :: responses where
  "ok_responses = \<lparr> orderError = False, addNoteThrows = False \<rparr>"

definition forward_save :: save_event where
  "forward_save = ReferralsSave ok_responses ''2024-01-15T10:00:00Z'' (Some ''u1'') (Some order1)
     \<lparr> newStage = ''PAR'', save_note = ''sent'', regressionReason = Some ''not needed'' \<rparr>"

definition same_stage_save :: save_event where
  "same_stage_save = DetailSave ok_responses ''2024-01-15T11:00:00Z'' (Some ''u1'') (Some order1)
     (Some ann) \<lparr> newStage = ''Docs'', save_note = ''again'', regressionReason = Some ''none'' \<rparr>"

definition backward_save :: save_event where
  "backward_save = ReferralsSave ok_responses ''2024-01-15T12:00:00Z'' (Some ''u1'') (Some order1)
     \<lparr> newStage = ''Intake'', save_note = ''redo'', regressionReason = Some ''missing form'' \<rparr>"

text \<open>Rows for the dashboard: a patient with two required documents, an order of the
  earlier period with one of the two complete, an order with its one required document
  complete, the age of an order by its creation date, and a week key.\<close>

definition cara :: Patient where
  "cara = ann \<lparr> pid := ''p6'', name := Some ''Cara'',
     required_documents := Some [''FACE'', ''CMN''] \<rparr>"

definition order6 :: Order where
  "order6 = order1 \<lparr> order_id := ''o6'', patient_id := ''p6'', patients := Some cara,
     created_at := ''2024-01-05'', document_status := Some [''FACE'' \<mapsto> ''Complete''] \<rparr>"

definition order7 :: Order where
  "order7 = order1 \<lparr> order_id := ''o7'', document_status := Some [''FACE'' \<mapsto> ''Complete''] \<rparr>"

definition example_daysOld :: "string \<Rightarrow> rat" where
  "example_daysOld createdAt = (if createdAt = ''2024-01-05'' then 11 else 6)"

definition example_getWeek :: "int option \<Rightarrow> string" where
  "example_getWeek d =
     (case d of None \<Rightarrow> ''NaN''
      | Some t \<Rightarrow> if t < 1704672000000 then ''2024-W01'' else ''2024-W02'')"




section \<open>Filtering and sorting\<close>

text \<open>
  A filter whose callback can throw returns normally exactly when the callback returns
  on every element, and then it is the ordinary filter.
\<close>

lemma filter_throw_Inr:
  "filter_throw p xs = Inr ys \<longleftrightarrow>
     (\<forall>x\<in>set xs. \<exists>b. p x = Inr b) \<and> ys = filter (\<lambda>x. p x = Inr True) xs"
proof (induction xs arbitrary: ys)
  case Nil
  show ?case by auto
next
  case (Cons x xs)
  show ?case
  proof (cases "p x")
    case (Inl e)
    then show ?thesis by auto
  next
    case (Inr b)
    then show ?thesis
      using Cons.IH by (cases "filter_throw p xs") auto
  qed
qed

lemma set_insert_sorted: "set (insert_sorted cmp x xs) = insert x (set xs)"
  by (induction xs) auto

lemma mset_insert_sorted: "mset (insert_sorted cmp x xs) = add_mset x (mset xs)"
  by (induction xs) auto

lemma mset_array_sort: "mset (array_sort cmp xs) = mset xs"
  by (induction xs) (auto simp: mset_insert_sorted)

lemma set_array_sort: "set (array_sort cmp xs) = set xs"
  by (induction xs) (auto simp: set_insert_sorted)

lemma sorted_insert_sorted:
  assumes "total_preorder cmp" and "sorted_wrt (\<lambda>a b. cmp a b \<le> 0) xs"
  shows "sorted_wrt (\<lambda>a b. cmp a b \<le> 0) (insert_sorted cmp x xs)"
  using assms(2)
proof (induction xs)
  case Nil
  show ?case by simp
next
  case (Cons y ys)
  have tot: "\<And>a b. cmp a b \<le> 0 \<or> cmp b a \<le> 0"
    and tr: "\<And>a b c. cmp a b \<le> 0 \<Longrightarrow> cmp b c \<le> 0 \<Longrightarrow> cmp a c \<le> 0"
    using assms(1) unfolding total_preorder_def by blast+
  show ?case
  proof (cases "cmp x y \<le> 0")
    case True
    then have "\<forall>z\<in>set ys. cmp x z \<le> 0"
      using Cons.prems tr by auto
    with True Cons.prems show ?thesis by simp
  next
    case False
    then have "cmp y x \<le> 0" using tot by blast
    with False Cons show ?thesis by (auto simp: set_insert_sorted)
  qed
qed

lemma sorted_array_sort:
  "total_preorder cmp \<Longrightarrow> sorted_wrt (\<lambda>a b. cmp a b \<le> 0) (array_sort cmp xs)"
  by (induction xs) (auto intro: sorted_insert_sorted)

lemma filter_insert_sorted_drop:
  "\<not> P x \<Longrightarrow> filter P (insert_sorted cmp x xs) = filter P xs"
  by (induction xs) auto

lemma filter_insert_sorted_keep:
  assumes "total_preorder cmp" and "sorted_wrt (\<lambda>a b. cmp a b \<le> 0) xs" and "P x"
  shows "filter P (insert_sorted cmp x xs) = insert_sorted cmp x (filter P xs)"
  using assms(2)
proof (induction xs)
  case Nil
  show ?case using assms(3) by simp
next
  case (Cons y ys)
  have tr: "\<And>a b c. cmp a b \<le> 0 \<Longrightarrow> cmp b c \<le> 0 \<Longrightarrow> cmp a c \<le> 0"
    using assms(1) unfolding total_preorder_def by blast
  show ?case
  proof (cases "cmp x y \<le> 0")
    case True
    then have below: "\<forall>z\<in>set ys. cmp x z \<le> 0"
      using Cons.prems tr by auto
    have "insert_sorted cmp x (filter P ys) = x # filter P ys"
      using below by (cases "filter P ys") (auto simp: filter_eq_Cons_iff)
    with True assms(3) show ?thesis by simp
  next
    case False
    with Cons assms(3) show ?thesis by simp
  qed
qed

lemma filter_array_sort:
  "total_preorder cmp \<Longrightarrow> filter P (array_sort cmp xs) = array_sort cmp (filter P xs)"
  by (induction xs)
     (simp_all add: filter_insert_sorted_keep filter_insert_sorted_drop sorted_array_sort)

lemma array_sort_all_equivalent:
  "(\<forall>x\<in>set xs. \<forall>y\<in>set xs. cmp x y \<le> 0) \<Longrightarrow> array_sort cmp xs = xs"
proof (induction xs)
  case Nil
  show ?case by simp
next
  case (Cons x xs)
  then have "array_sort cmp xs = xs" by simp
  moreover have "insert_sorted cmp x xs = x # xs"
    using Cons.prems by (cases xs) auto
  ultimately show ?case by simp
qed

lemma array_sort_stable_class:
  assumes "total_preorder cmp" and "\<And>x y. E x \<Longrightarrow> E y \<Longrightarrow> cmp x y \<le> 0"
  shows "filter E (array_sort cmp xs) = filter E xs"
proof -
  have "array_sort cmp (filter E xs) = filter E xs"
    by (rule array_sort_all_equivalent) (auto intro: assms(2))
  then show ?thesis using assms(1) by (simp add: filter_array_sort)
qed

text \<open>
  The value of \<open>filtered\<close>: it is defined when the advanced filter, if it runs, returns on
  every order that reaches it, and then it is one filter of the fetched rows.
\<close>

lemma filtered_Inr_iff:
  "filtered env c allOrders = Inr f \<longleftrightarrow>
     (anyAdvanced (advancedFilters c) \<longrightarrow>
        (\<forall>order\<in>set allOrders. basicKeeps c order \<longrightarrow>
           (\<exists>b. advancedFilterPredicate env (advancedFilters c) order = Inr b))) \<and>
     f = filter (\<lambda>order. basicKeeps c order \<and>
            (anyAdvanced (advancedFilters c) \<longrightarrow>
               advancedFilterPredicate env (advancedFilters c) order = Inr True) \<and>
            (debouncedTerm c \<noteq> [] \<longrightarrow>
               searchPredicate env (toLowerCase env (debouncedTerm c)) order)) allOrders"
proof -
  let ?f3 = "filter (basicKeeps c) allOrders"
  have f3: "(let f0 = filter (archivePredicate (archiveFilter (archive_status c))) allOrders;
          f1 = (if truthy (accountFilter c)
                then filter (\<lambda>order. case patients order of None \<Rightarrow> False
                                      | Some p \<Rightarrow> primary_insurance p = accountFilter c) f0
                else f0);
          f2 = (if length (activeFilters c) > 0
                then filter (\<lambda>order. when_truthy (workflow_stage order)
                                        (\<lambda>s. s \<in> set (activeFilters c))) f1
                else f1);
          f3 = (if truthy (stoplightFilter c)
                then filter (\<lambda>order. stoplight_status order = stoplightFilter c) f2
                else f2) in g f3) = g ?f3" for g :: "Order list \<Rightarrow> error + Order list"
    unfolding Let_def basicKeeps_def
    by (auto intro!: arg_cong[where f=g] filter_cong)
  let ?adv = "advancedFilterPredicate env (advancedFilters c)"
  let ?search = "searchPredicate env (toLowerCase env (debouncedTerm c))"
  show ?thesis
  proof (cases "anyAdvanced (advancedFilters c)")
    case False
    then show ?thesis
      unfolding filtered_def f3 by (auto intro: filter_cong)
  next
    case adv: True
    show ?thesis
    proof (cases "\<forall>order\<in>set ?f3. \<exists>b. ?adv order = Inr b")
      case True
      then have "filter_throw ?adv ?f3 = Inr (filter (\<lambda>order. ?adv order = Inr True) ?f3)"
        by (simp only: filter_throw_Inr simp_thms)
      with adv True show ?thesis
        unfolding filtered_def f3 by (auto intro: filter_cong)
    next
      case False
      then have "\<forall>ys. filter_throw ?adv ?f3 \<noteq> Inr ys"
        by (simp only: filter_throw_Inr) blast
      then obtain e where "filter_throw ?adv ?f3 = Inl e"
        by (cases "filter_throw ?adv ?f3") auto
      with adv False show ?thesis
        unfolding filtered_def f3 by auto
    qed
  qed
qed

section \<open>The document-requirement filter\<close>

lemma advancedFilterPredicate_docOnly:
  "patients order = Some patient \<Longrightarrow>
   advancedFilterPredicate env (docOnly k st) order = Inr (\<not> docRejects (Some k) (Some st) order)"
  by (simp add: advancedFilterPredicate_def docOnly_def noFilters_def when_truthy_def
      dobMismatch_def insuranceRejects_def dateStartRejects_def dateEndRejects_def)

lemma docRejects_Missing_absent:
  assumes "patients order = Some patient" and "k \<noteq> []"
    and "\<forall>ds. required_documents patient = Some ds \<longrightarrow> k \<notin> set ds"
  shows "docRejects (Some k) (Some ''Missing'') order"
  using assms by (auto simp: docRejects_def when_truthy_def split: option.splits)

lemma advancedFilterPredicate_True_doc:
  "advancedFilterPredicate env af order = Inr True \<Longrightarrow>
   \<not> docRejects (af_docFilterKey af) (af_docFilterStatus af) order"
  by (auto simp: advancedFilterPredicate_def split: option.splits if_splits sum.splits)

text \<open>
  Claim C2, as amended. Let the document key \<open>k\<close> be absent from the required documents
  of the patient of an order (or let the patient have no list). With only the document
  requirement set, the order never passes the requirement \<^verbatim>\<open>Missing\<close>, always passes
  \<^verbatim>\<open>Not Required\<close>, and passes \<^verbatim>\<open>Complete\<close> exactly when its \<^verbatim>\<open>document_status\<close> marks \<open>k\<close>
  as \<^verbatim>\<open>'Complete'\<close>: the requirement \<^verbatim>\<open>Complete\<close> reads the status only, not the list of
  required documents. Whatever else is set, an advanced filter that asks for \<open>k\<close> to be
  \<^verbatim>\<open>Missing\<close> never keeps the order.
\<close>

theorem doc_filter_absent_key:
  assumes "patients order = Some patient" and "k \<noteq> []"
    and "\<forall>ds. required_documents patient = Some ds \<longrightarrow> k \<notin> set ds"
  shows "advancedFilterPredicate env (docOnly k ''Missing'') order = Inr False \<and>
         advancedFilterPredicate env (docOnly k ''Not Required'') order = Inr True \<and>
         (advancedFilterPredicate env (docOnly k ''Complete'') order = Inr True \<longleftrightarrow>
            (\<exists>m. document_status order = Some m \<and> m k = Some ''Complete'')) \<and>
         (\<forall>af::AdvancedFilters. af_docFilterKey af = Some k \<and> af_docFilterStatus af = Some ''Missing'' \<longrightarrow>
            advancedFilterPredicate env af order \<noteq> Inr True)"
proof (intro conjI allI impI)
  show "advancedFilterPredicate env (docOnly k ''Missing'') order = Inr False"
    using assms by (simp add: advancedFilterPredicate_docOnly docRejects_Missing_absent)
  show "advancedFilterPredicate env (docOnly k ''Not Required'') order = Inr True"
    using assms
    by (auto simp: advancedFilterPredicate_docOnly docRejects_def when_truthy_def
        split: option.splits)
  show "advancedFilterPredicate env (docOnly k ''Complete'') order = Inr True \<longleftrightarrow>
        (\<exists>m. document_status order = Some m \<and> m k = Some ''Complete'')"
    using assms
    by (auto simp: advancedFilterPredicate_docOnly docRejects_def when_truthy_def
        split: option.splits)
next
  fix af :: AdvancedFilters
  assume "af_docFilterKey af = Some k \<and> af_docFilterStatus af = Some ''Missing''"
  then show "advancedFilterPredicate env af order \<noteq> Inr True"
    using advancedFilterPredicate_True_doc[of env af order] docRejects_Missing_absent[OF assms]
    by auto
qed

text \<open>
  The hypotheses of \<open>doc_filter_absent_key\<close> hold for the order \<open>order1\<close>, whose patient
  requires \<^verbatim>\<open>FACE\<close> only, and the key \<^verbatim>\<open>CMN\<close>.
\<close>

theorem doc_filter_absent_key_witness:
  "patients order1 = Some ann \<and> required_documents ann = Some [''FACE''] \<and>
   ''CMN'' \<notin> set [''FACE''] \<and>
   advancedFilterPredicate utc_env (docOnly ''CMN'' ''Missing'') order1 = Inr False \<and>
   advancedFilterPredicate utc_env (docOnly ''CMN'' ''Not Required'') order1 = Inr True \<and>
   advancedFilterPredicate utc_env (docOnly ''CMN'' ''Complete'') order1 = Inr True \<and>
   advancedFilterPredicate utc_env
     ((docOnly ''CMN'' ''Missing'') \<lparr> af_workflowStage := Some ''Docs'' \<rparr>) order1 \<noteq> Inr True"
proof -
  have h1: "patients order1 = Some ann" by (simp add: order1_def)
  have h2: "''CMN'' \<noteq> []" by simp
  have h3: "\<forall>ds. required_documents ann = Some ds \<longrightarrow> ''CMN'' \<notin> set ds"
    by (simp add: ann_def)
  have "document_status order1 = Some [''CMN'' \<mapsto> ''Complete'']" by (simp add: order1_def)
  then show ?thesis
    using doc_filter_absent_key[OF h1 h2 h3, of utc_env] h1
    by (simp add: ann_def docOnly_def)
qed

text \<open>
  Claim C2 as stated fails: \<open>order1\<close> marks \<^verbatim>\<open>CMN\<close> as \<^verbatim>\<open>'Complete'\<close>, its patient does not
  require \<^verbatim>\<open>CMN\<close>, and the filter \<^verbatim>\<open>Complete\<close> on \<^verbatim>\<open>CMN\<close> keeps the order.
\<close>

theorem complete_filter_keeps_absent_key:
  "required_documents ann = Some [''FACE''] \<and> ''CMN'' \<notin> set [''FACE''] \<and>
   orders utc_env (no_criteria \<lparr> advancedFilters := docOnly ''CMN'' ''Complete'' \<rparr>)
     (Some [order1]) = Inr [order1]"
proof -
  have "patients order1 = Some ann" by (simp add: order1_def)
  moreover have "\<not> docRejects (Some ''CMN'') (Some ''Complete'') order1"
    by (simp add: docRejects_def when_truthy_def order1_def)
  ultimately have "advancedFilterPredicate utc_env (docOnly ''CMN'' ''Complete'') order1 = Inr True"
    by (simp add: advancedFilterPredicate_docOnly)
  moreover have "basicKeeps (no_criteria \<lparr> advancedFilters := docOnly ''CMN'' ''Complete'' \<rparr>) order1"
    by (simp add: basicKeeps_def no_criteria_def archiveFilter_def archivePredicate_def
        truthy_def order1_def)
  ultimately have "filtered utc_env (no_criteria \<lparr> advancedFilters := docOnly ''CMN'' ''Complete'' \<rparr>)
     [order1] = Inr [order1]"
    by (auto simp: filtered_Inr_iff no_criteria_def)
  then show ?thesis by (simp add: orders_def ann_def)
qed

section \<open>Membership in the result of the pipeline\<close>

text \<open>The definitions a concrete run of the pipeline unfolds.\<close>

lemmas eval_defs = orders_def filtered_def no_criteria_def noFilters_def anyAdvanced_def truthy_def archiveFilter_def archivePredicate_def
    advancedFilterPredicate_def order1_def nopatient_def order3_def ann_def bob_def utc_env_def when_truthy_def lowerIncludes_def dobMismatch_def example_dates_def
    insuranceRejects_def dateStartRejects_def dateEndRejects_def docRejects_def all_criteria_def searchPredicate_def str_includes_def
    sublist_code prefix_code lower_char_def date_lt_def setHours_endOfDay_def msPerDay_def LocalTime_def UTC_def Day_def
    MakeTime_def MakeDate_def TimeClip_def compareOrders_def sortName_def
    order4_def order5_def

lemma orders_Some_Inr:
  "orders env c (Some allOrders) = Inr res \<longleftrightarrow>
     (\<exists>f. filtered env c allOrders = Inr f \<and> res = array_sort (compareOrders env) f)"
  by (cases "filtered env c allOrders") (auto simp: orders_def)

lemma advancedFilterPredicate_no_patient:
  "patients order = None \<Longrightarrow> advancedFilterPredicate env af order = Inr False"
  by (simp add: advancedFilterPredicate_def)

lemma basicKeeps_no_patient:
  "patients order = None \<Longrightarrow>
   basicKeeps c order \<longleftrightarrow>
     archivePredicate (archiveFilter (archive_status c)) order \<and>
     \<not> truthy (accountFilter c) \<and>
     (activeFilters c \<noteq> [] \<longrightarrow>
        (\<exists>s. workflow_stage order = Some s \<and> s \<noteq> [] \<and> s \<in> set (activeFilters c))) \<and>
     (truthy (stoplightFilter c) \<longrightarrow> stoplight_status order = stoplightFilter c)"
  by (auto simp: basicKeeps_def when_truthy_def split: option.splits)

lemma searchPredicate_no_patient:
  "patients order = None \<Longrightarrow>
   searchPredicate env t order \<longleftrightarrow>
     (\<exists>s. workflow_stage order = Some s \<and> str_includes (toLowerCase env s) t)"
  by (auto simp: searchPredicate_def lowerIncludes_def split: option.splits)

lemma advancedFilterPredicate_True_iff:
  "advancedFilterPredicate env af order = Inr True \<longleftrightarrow>
     (\<exists>patient. patients order = Some patient \<and>
        \<not> when_truthy (af_firstName af)
            (\<lambda>v. \<not> lowerIncludes env (name patient) (toLowerCase env v)) \<and>
        \<not> when_truthy (af_lastName af)
            (\<lambda>v. \<not> lowerIncludes env (name patient) (toLowerCase env v)) \<and>
        dobMismatch env (af_dob af) (dob patient) = Inr False \<and>
        \<not> insuranceRejects env (af_insurance af) patient \<and>
        \<not> dateStartRejects env (af_dateStart af) order \<and>
        \<not> dateEndRejects env (af_dateEnd af) order \<and>
        \<not> when_truthy (af_workflowStage af) (\<lambda>v. workflow_stage order \<noteq> Some v) \<and>
        \<not> docRejects (af_docFilterKey af) (af_docFilterStatus af) order \<and>
        \<not> when_truthy (af_payer_region af) (\<lambda>v. payer_region order \<noteq> Some v) \<and>
        \<not> when_truthy (af_rep_name af) (\<lambda>v. rep_name order \<noteq> Some v))"
  by (cases "patients order"; cases "dobMismatch env (af_dob af) (dob (the (patients order)))")
     (auto simp: advancedFilterPredicate_def)

lemma kept_name_fragment:
  assumes "\<not> when_truthy f (\<lambda>v. \<not> lowerIncludes env (name patient) (toLowerCase env v))"
    and "f = Some v" and "v \<noteq> []"
  shows "\<exists>n. name patient = Some n \<and> str_includes (toLowerCase env n) (toLowerCase env v)"
  using assms by (auto simp: when_truthy_def lowerIncludes_def split: option.splits)

lemma kept_dob:
  assumes "dobMismatch env f (dob patient) = Inr False" and "f = Some v" and "v \<noteq> []"
  shows "dob patient = None \<or> dob patient = Some [] \<or>
         (\<exists>pd t. dob patient = Some pd \<and> new_Date env pd = Some t \<and> toISODate env t = v)"
  using assms by (auto simp: dobMismatch_def split: option.splits if_splits)

lemma kept_insurance:
  assumes "\<not> insuranceRejects env f patient" and "f = Some v" and "v \<noteq> []"
  shows "\<exists>i. primary_insurance patient = Some i \<and> i \<noteq> [] \<and>
           toLowerCase env i \<in> set (map (\<lambda>x. trim env (toLowerCase env x)) (split_on CHR '','' v))"
  using assms by (auto simp: insuranceRejects_def when_truthy_def split: option.splits)

lemma kept_dateStart:
  assumes "\<not> dateStartRejects env f order" and "f = Some v" and "v \<noteq> []"
    and "referral_date order = Some rd" and "rd \<noteq> []"
    and "new_Date env rd = Some t" and "new_Date env v = Some s"
  shows "s \<le> t"
  using assms by (auto simp: dateStartRejects_def when_truthy_def date_lt_def)

lemma kept_dateEnd:
  assumes "\<not> dateEndRejects env f order" and "f = Some v" and "v \<noteq> []"
    and "referral_date order = Some rd" and "rd \<noteq> []"
    and "new_Date env rd = Some t"
    and "setHours_endOfDay env (new_Date env v) = Some e"
  shows "t \<le> e"
  using assms by (auto simp: dateEndRejects_def when_truthy_def date_lt_def)

lemma kept_exact:
  assumes "\<not> when_truthy f (\<lambda>v. field \<noteq> Some v)" and "f = Some v" and "v \<noteq> []"
  shows "field = Some v"
  using assms by (auto simp: when_truthy_def)

lemma kept_doc:
  assumes "\<not> docRejects fk fs order" and "fk = Some k" and "k \<noteq> []"
    and "fs = Some st" and "st \<noteq> []"
  shows "(st = ''Complete'' \<longrightarrow>
            (\<exists>m. document_status order = Some m \<and> m k = Some ''Complete'')) \<and>
         (st = ''Missing'' \<longrightarrow>
            (\<exists>p ds. patients order = Some p \<and> required_documents p = Some ds \<and> k \<in> set ds) \<and>
            \<not> (\<exists>m. document_status order = Some m \<and> m k = Some ''Complete'')) \<and>
         (st = ''Not Required'' \<longrightarrow>
            \<not> (\<exists>p ds. patients order = Some p \<and> required_documents p = Some ds \<and> k \<in> set ds))"
  using assms by (auto simp: docRejects_def when_truthy_def split: option.splits)

lemma kept_basic:
  assumes "basicKeeps c order"
  shows "(archiveFilter (archive_status c) = ''active'' \<longrightarrow> is_archived order \<noteq> Some True) \<and>
         (archiveFilter (archive_status c) = ''archived'' \<longrightarrow> is_archived order = Some True) \<and>
         (truthy (accountFilter c) \<longrightarrow>
            (\<exists>p. patients order = Some p \<and> primary_insurance p = accountFilter c)) \<and>
         (activeFilters c \<noteq> [] \<longrightarrow>
            (\<exists>s. workflow_stage order = Some s \<and> s \<in> set (activeFilters c))) \<and>
         (truthy (stoplightFilter c) \<longrightarrow> stoplight_status order = stoplightFilter c)"
  using assms
  by (auto simp: basicKeeps_def archivePredicate_def when_truthy_def split: option.splits)

lemma kept_search:
  assumes "searchPredicate env t order"
  shows "\<exists>s. (workflow_stage order = Some s \<or>
              (\<exists>p. patients order = Some p \<and> (name p = Some s \<or> primary_insurance p = Some s))) \<and>
             str_includes (toLowerCase env s) t"
  using assms by (auto simp: searchPredicate_def lowerIncludes_def split: option.splits)

lemma orders_member:
  assumes "orders env c (Some allOrders) = Inr res" and "order \<in> set res"
  shows "order \<in> set allOrders \<and> basicKeeps c order \<and>
         (anyAdvanced (advancedFilters c) \<longrightarrow>
            advancedFilterPredicate env (advancedFilters c) order = Inr True) \<and>
         (debouncedTerm c \<noteq> [] \<longrightarrow>
            searchPredicate env (toLowerCase env (debouncedTerm c)) order)"
  using assms by (auto simp: orders_Some_Inr set_array_sort filtered_Inr_iff)

lemma anyAdvanced_field:
  fixes af :: AdvancedFilters
  assumes "v \<noteq> []"
    and "af_firstName af = Some v \<or> af_lastName af = Some v \<or> af_dob af = Some v \<or>
         af_insurance af = Some v \<or> af_dateStart af = Some v \<or> af_dateEnd af = Some v \<or>
         af_workflowStage af = Some v \<or> af_docFilterKey af = Some v \<or>
         af_docFilterStatus af = Some v \<or> af_payer_region af = Some v \<or>
         af_rep_name af = Some v"
  shows "anyAdvanced af"
  using assms by (auto simp: anyAdvanced_def truthy_def)

subsection \<open>Conjunction of the criteria\<close>

text \<open>
  Claim C1, as amended. Every record of the result is a fetched record and satisfies
  each active criterion on its own: the archive mode, the account, the selected stages,
  the stoplight status, the free-text term (a lower-cased substring of the patient name,
  the insurance or the stage), and each advanced-filter field that is set. Two criteria
  are satisfied by a record that lacks the data they read: the date of birth binds only
  a patient that has a date of birth, and each bound of the date range binds only a
  referral that has a referral date (and only when both dates are valid).
\<close>

theorem orders_conjunctive:
  assumes "orders env c (Some allOrders) = Inr res" and "order \<in> set res"
  shows
    "order \<in> set allOrders \<and>
     (archiveFilter (archive_status c) = ''active'' \<longrightarrow> is_archived order \<noteq> Some True) \<and>
     (archiveFilter (archive_status c) = ''archived'' \<longrightarrow> is_archived order = Some True) \<and>
     (truthy (accountFilter c) \<longrightarrow>
        (\<exists>p. patients order = Some p \<and> primary_insurance p = accountFilter c)) \<and>
     (activeFilters c \<noteq> [] \<longrightarrow>
        (\<exists>s. workflow_stage order = Some s \<and> s \<in> set (activeFilters c))) \<and>
     (truthy (stoplightFilter c) \<longrightarrow> stoplight_status order = stoplightFilter c) \<and>
     (debouncedTerm c \<noteq> [] \<longrightarrow>
        (\<exists>s. (workflow_stage order = Some s \<or>
               (\<exists>p. patients order = Some p \<and>
                    (name p = Some s \<or> primary_insurance p = Some s))) \<and>
              str_includes (toLowerCase env s) (toLowerCase env (debouncedTerm c)))) \<and>
     (\<forall>v. af_firstName (advancedFilters c) = Some v \<and> v \<noteq> [] \<longrightarrow>
        (\<exists>p n. patients order = Some p \<and> name p = Some n \<and>
               str_includes (toLowerCase env n) (toLowerCase env v))) \<and>
     (\<forall>v. af_lastName (advancedFilters c) = Some v \<and> v \<noteq> [] \<longrightarrow>
        (\<exists>p n. patients order = Some p \<and> name p = Some n \<and>
               str_includes (toLowerCase env n) (toLowerCase env v))) \<and>
     (\<forall>v. af_dob (advancedFilters c) = Some v \<and> v \<noteq> [] \<longrightarrow>
        (\<exists>p. patients order = Some p \<and>
             (dob p = None \<or> dob p = Some [] \<or>
              (\<exists>pd t. dob p = Some pd \<and> new_Date env pd = Some t \<and> toISODate env t = v)))) \<and>
     (\<forall>v. af_insurance (advancedFilters c) = Some v \<and> v \<noteq> [] \<longrightarrow>
        (\<exists>p i. patients order = Some p \<and> primary_insurance p = Some i \<and> i \<noteq> [] \<and>
               toLowerCase env i \<in>
                 set (map (\<lambda>x. trim env (toLowerCase env x)) (split_on CHR '','' v)))) \<and>
     (\<forall>v rd s t. af_dateStart (advancedFilters c) = Some v \<and> v \<noteq> [] \<and>
        referral_date order = Some rd \<and> rd \<noteq> [] \<and>
        new_Date env v = Some s \<and> new_Date env rd = Some t \<longrightarrow> s \<le> t) \<and>
     (\<forall>v rd e t. af_dateEnd (advancedFilters c) = Some v \<and> v \<noteq> [] \<and>
        referral_date order = Some rd \<and> rd \<noteq> [] \<and>
        setHours_endOfDay env (new_Date env v) = Some e \<and>
        new_Date env rd = Some t \<longrightarrow> t \<le> e) \<and>
     (\<forall>v. af_workflowStage (advancedFilters c) = Some v \<and> v \<noteq> [] \<longrightarrow>
        workflow_stage order = Some v) \<and>
     (\<forall>k st. af_docFilterKey (advancedFilters c) = Some k \<and> k \<noteq> [] \<and>
        af_docFilterStatus (advancedFilters c) = Some st \<and> st \<noteq> [] \<longrightarrow>
        (st = ''Complete'' \<longrightarrow>
           (\<exists>m. document_status order = Some m \<and> m k = Some ''Complete'')) \<and>
        (st = ''Missing'' \<longrightarrow>
           (\<exists>p ds. patients order = Some p \<and> required_documents p = Some ds \<and> k \<in> set ds) \<and>
           \<not> (\<exists>m. document_status order = Some m \<and> m k = Some ''Complete'')) \<and>
        (st = ''Not Required'' \<longrightarrow>
           \<not> (\<exists>p ds. patients order = Some p \<and> required_documents p = Some ds \<and>
                 k \<in> set ds))) \<and>
     (\<forall>v. af_payer_region (advancedFilters c) = Some v \<and> v \<noteq> [] \<longrightarrow>
        payer_region order = Some v) \<and>
     (\<forall>v. af_rep_name (advancedFilters c) = Some v \<and> v \<noteq> [] \<longrightarrow> rep_name order = Some v)"
proof -
  let ?af = "advancedFilters c"
  note m = orders_member [OF assms]
  from m have mem: "order \<in> set allOrders" and basic: "basicKeeps c order"
    and adv: "anyAdvanced ?af \<Longrightarrow> advancedFilterPredicate env ?af order = Inr True"
    and search: "debouncedTerm c \<noteq> [] \<Longrightarrow>
                 searchPredicate env (toLowerCase env (debouncedTerm c)) order"
    by blast+
  note b = kept_basic [OF basic]
  have kept: "\<exists>patient. patients order = Some patient \<and>
        \<not> when_truthy (af_firstName ?af)
            (\<lambda>v. \<not> lowerIncludes env (name patient) (toLowerCase env v)) \<and>
        \<not> when_truthy (af_lastName ?af)
            (\<lambda>v. \<not> lowerIncludes env (name patient) (toLowerCase env v)) \<and>
        dobMismatch env (af_dob ?af) (dob patient) = Inr False \<and>
        \<not> insuranceRejects env (af_insurance ?af) patient \<and>
        \<not> dateStartRejects env (af_dateStart ?af) order \<and>
        \<not> dateEndRejects env (af_dateEnd ?af) order \<and>
        \<not> when_truthy (af_workflowStage ?af) (\<lambda>v. workflow_stage order \<noteq> Some v) \<and>
        \<not> docRejects (af_docFilterKey ?af) (af_docFilterStatus ?af) order \<and>
        \<not> when_truthy (af_payer_region ?af) (\<lambda>v. payer_region order \<noteq> Some v) \<and>
        \<not> when_truthy (af_rep_name ?af) (\<lambda>v. rep_name order \<noteq> Some v)"
    if "anyAdvanced ?af"
    using adv [OF that] by (simp only: advancedFilterPredicate_True_iff)
  have c1: "archiveFilter (archive_status c) = ''active'' \<longrightarrow> is_archived order \<noteq> Some True"
    using b by blast
  have c2: "archiveFilter (archive_status c) = ''archived'' \<longrightarrow> is_archived order = Some True"
    using b by blast
  have c3: "truthy (accountFilter c) \<longrightarrow>
        (\<exists>p. patients order = Some p \<and> primary_insurance p = accountFilter c)"
    using b by blast
  have c4: "activeFilters c \<noteq> [] \<longrightarrow>
        (\<exists>s. workflow_stage order = Some s \<and> s \<in> set (activeFilters c))"
    using b by blast
  have c5: "truthy (stoplightFilter c) \<longrightarrow> stoplight_status order = stoplightFilter c"
    using b by blast
  have c6: "debouncedTerm c \<noteq> [] \<longrightarrow>
        (\<exists>s. (workflow_stage order = Some s \<or>
               (\<exists>p. patients order = Some p \<and>
                    (name p = Some s \<or> primary_insurance p = Some s))) \<and>
              str_includes (toLowerCase env s) (toLowerCase env (debouncedTerm c)))"
    using search kept_search by blast
  have a1: "\<forall>v. af_firstName ?af = Some v \<and> v \<noteq> [] \<longrightarrow>
        (\<exists>p n. patients order = Some p \<and> name p = Some n \<and>
               str_includes (toLowerCase env n) (toLowerCase env v))"
    using kept anyAdvanced_field [of _ ?af] kept_name_fragment [of "af_firstName ?af" env]
    by metis
  have a2: "\<forall>v. af_lastName ?af = Some v \<and> v \<noteq> [] \<longrightarrow>
        (\<exists>p n. patients order = Some p \<and> name p = Some n \<and>
               str_includes (toLowerCase env n) (toLowerCase env v))"
    using kept anyAdvanced_field [of _ ?af] kept_name_fragment [of "af_lastName ?af" env]
    by metis
  have a3: "\<forall>v. af_dob ?af = Some v \<and> v \<noteq> [] \<longrightarrow>
        (\<exists>p. patients order = Some p \<and>
             (dob p = None \<or> dob p = Some [] \<or>
              (\<exists>pd t. dob p = Some pd \<and> new_Date env pd = Some t \<and> toISODate env t = v)))"
    using kept anyAdvanced_field [of _ ?af] kept_dob [of env "af_dob ?af"]
    by metis
  have a4: "\<forall>v. af_insurance ?af = Some v \<and> v \<noteq> [] \<longrightarrow>
        (\<exists>p i. patients order = Some p \<and> primary_insurance p = Some i \<and> i \<noteq> [] \<and>
               toLowerCase env i \<in>
                 set (map (\<lambda>x. trim env (toLowerCase env x)) (split_on CHR '','' v)))"
    using kept anyAdvanced_field [of _ ?af] kept_insurance [of env "af_insurance ?af"]
    by metis
  have a5: "\<forall>v rd s t. af_dateStart ?af = Some v \<and> v \<noteq> [] \<and>
        referral_date order = Some rd \<and> rd \<noteq> [] \<and>
        new_Date env v = Some s \<and> new_Date env rd = Some t \<longrightarrow> s \<le> t"
    using kept anyAdvanced_field [of _ ?af] kept_dateStart [of env "af_dateStart ?af" order]
    by metis
  have a6: "\<forall>v rd e t. af_dateEnd ?af = Some v \<and> v \<noteq> [] \<and>
        referral_date order = Some rd \<and> rd \<noteq> [] \<and>
        setHours_endOfDay env (new_Date env v) = Some e \<and>
        new_Date env rd = Some t \<longrightarrow> t \<le> e"
    using kept anyAdvanced_field [of _ ?af] kept_dateEnd [of env "af_dateEnd ?af" order]
    by metis
  have a7: "\<forall>v. af_workflowStage ?af = Some v \<and> v \<noteq> [] \<longrightarrow> workflow_stage order = Some v"
    using kept anyAdvanced_field [of _ ?af]
      kept_exact [of "af_workflowStage ?af" "workflow_stage order"]
    by metis
  have a8: "\<forall>k st. af_docFilterKey ?af = Some k \<and> k \<noteq> [] \<and>
        af_docFilterStatus ?af = Some st \<and> st \<noteq> [] \<longrightarrow>
        (st = ''Complete'' \<longrightarrow>
           (\<exists>m. document_status order = Some m \<and> m k = Some ''Complete'')) \<and>
        (st = ''Missing'' \<longrightarrow>
           (\<exists>p ds. patients order = Some p \<and> required_documents p = Some ds \<and> k \<in> set ds) \<and>
           \<not> (\<exists>m. document_status order = Some m \<and> m k = Some ''Complete'')) \<and>
        (st = ''Not Required'' \<longrightarrow>
           \<not> (\<exists>p ds. patients order = Some p \<and> required_documents p = Some ds \<and>
                 k \<in> set ds))"
  proof (intro allI impI)
    fix k st
    assume h: "af_docFilterKey ?af = Some k \<and> k \<noteq> [] \<and>
        af_docFilterStatus ?af = Some st \<and> st \<noteq> []"
    then have "anyAdvanced ?af" using anyAdvanced_field [of k ?af] by blast
    from kept [OF this]
    have "\<not> docRejects (af_docFilterKey ?af) (af_docFilterStatus ?af) order" by blast
    from kept_doc [OF this, of k st] h
    show "(st = ''Complete'' \<longrightarrow>
           (\<exists>m. document_status order = Some m \<and> m k = Some ''Complete'')) \<and>
        (st = ''Missing'' \<longrightarrow>
           (\<exists>p ds. patients order = Some p \<and> required_documents p = Some ds \<and> k \<in> set ds) \<and>
           \<not> (\<exists>m. document_status order = Some m \<and> m k = Some ''Complete'')) \<and>
        (st = ''Not Required'' \<longrightarrow>
           \<not> (\<exists>p ds. patients order = Some p \<and> required_documents p = Some ds \<and>
                 k \<in> set ds))"
      by blast
  qed
  have a9: "\<forall>v. af_payer_region ?af = Some v \<and> v \<noteq> [] \<longrightarrow> payer_region order = Some v"
    using kept anyAdvanced_field [of _ ?af]
      kept_exact [of "af_payer_region ?af" "payer_region order"]
    by metis
  have a10: "\<forall>v. af_rep_name ?af = Some v \<and> v \<noteq> [] \<longrightarrow> rep_name order = Some v"
    using kept anyAdvanced_field [of _ ?af] kept_exact [of "af_rep_name ?af" "rep_name order"]
    by metis
  show ?thesis
    by (intro conjI) (rule mem c1 c2 c3 c4 c5 c6 a1 a2 a3 a4 a5 a6 a7 a8 a9 a10)+
qed

text \<open>
  The hypotheses of \<open>orders_conjunctive\<close> hold with every criterion active: of three
  fetched orders the pipeline keeps \<open>order1\<close>.
\<close>

theorem orders_conjunctive_witness:
  "orders utc_env all_criteria (Some [nopatient, order3, order1]) = Inr [order1] \<and>
   order1 \<in> set [order1] \<and>
   order1 \<in> set [nopatient, order3, order1] \<and>
   workflow_stage order1 = Some ''Docs'' \<and>
   payer_region order1 = Some ''East'' \<and>
   rep_name order1 = Some ''Kim''"
proof -
  have r: "orders utc_env all_criteria (Some [nopatient, order3, order1]) = Inr [order1]"
    by (simp add: eval_defs)
  have m: "order1 \<in> set [order1]" by simp
  have f: "af_workflowStage (advancedFilters all_criteria) = Some ''Docs''"
    "af_payer_region (advancedFilters all_criteria) = Some ''East''"
    "af_rep_name (advancedFilters all_criteria) = Some ''Kim''"
    by (simp_all add: all_criteria_def)
  have ne: "''Docs'' \<noteq> []" "''East'' \<noteq> []" "''Kim'' \<noteq> []" by simp_all
  note t = orders_conjunctive [OF r m]
  have t1: "order1 \<in> set [nopatient, order3, order1]"
    using t by (elim conjE) assumption
  have "\<forall>v. af_workflowStage (advancedFilters all_criteria) = Some v \<and> v \<noteq> [] \<longrightarrow>
          workflow_stage order1 = Some v"
    using t by (elim conjE) assumption
  with f ne have t2: "workflow_stage order1 = Some ''Docs''" by blast
  have "\<forall>v. af_payer_region (advancedFilters all_criteria) = Some v \<and> v \<noteq> [] \<longrightarrow>
          payer_region order1 = Some v"
    using t by (elim conjE) assumption
  with f ne have t3: "payer_region order1 = Some ''East''" by blast
  have "\<forall>v. af_rep_name (advancedFilters all_criteria) = Some v \<and> v \<noteq> [] \<longrightarrow>
          rep_name order1 = Some v"
    using t by (elim conjE) assumption
  with f ne have t4: "rep_name order1 = Some ''Kim''" by blast
  show ?thesis by (intro conjI r m t1 t2 t3 t4)
qed

text \<open>
  Claim C1 as stated fails for the criteria read as exact matches: the patient of
  \<open>order3\<close> has no date of birth and the order has no referral date, and the order is in
  the result of a filter for the date of birth \<^verbatim>\<open>1990-01-01\<close> and the end date
  \<^verbatim>\<open>2024-01-10\<close>.
\<close>

theorem missing_dob_passes_dob_filter:
  "patients order3 = Some bob \<and> dob bob = None \<and> referral_date order3 = None \<and>
   orders utc_env
     (no_criteria \<lparr> advancedFilters :=
        noFilters \<lparr> af_dob := Some ''1990-01-01'', af_dateEnd := Some ''2024-01-10'' \<rparr> \<rparr>)
     (Some [order3]) = Inr [order3]"
  by (simp add: eval_defs)

subsection \<open>The patient guard of the advanced filter\<close>

text \<open>
  Claim C10. When some advanced-filter field is truthy, whichever it is, every record of
  the result has a joined patient. When none is, the pipeline returns, and an order
  without a joined patient is in the result exactly when it is fetched and passes the
  remaining criteria: the archive mode, no account filter (the account is read from the
  patient), the selected stages, the stoplight status, and the free-text term, which
  can only match its stage.
\<close>

theorem advanced_filter_requires_patient:
  "(anyAdvanced (advancedFilters c) \<and> orders env c (Some allOrders) = Inr res \<and>
      order \<in> set res \<longrightarrow> patients order \<noteq> None) \<and>
   (\<not> anyAdvanced (advancedFilters c) \<and> patients order = None \<longrightarrow>
      (\<exists>res'. orders env c (Some allOrders) = Inr res' \<and>
         (order \<in> set res' \<longleftrightarrow>
            order \<in> set allOrders \<and>
            archivePredicate (archiveFilter (archive_status c)) order \<and>
            \<not> truthy (accountFilter c) \<and>
            (activeFilters c \<noteq> [] \<longrightarrow>
               (\<exists>s. workflow_stage order = Some s \<and> s \<noteq> [] \<and> s \<in> set (activeFilters c))) \<and>
            (truthy (stoplightFilter c) \<longrightarrow> stoplight_status order = stoplightFilter c) \<and>
            (debouncedTerm c \<noteq> [] \<longrightarrow>
               (\<exists>s. workflow_stage order = Some s \<and>
                  str_includes (toLowerCase env s) (toLowerCase env (debouncedTerm c)))))))"
proof (intro conjI impI)
  assume a: "anyAdvanced (advancedFilters c) \<and> orders env c (Some allOrders) = Inr res \<and>
             order \<in> set res"
  then obtain f where "filtered env c allOrders = Inr f" and "order \<in> set f"
    by (auto simp: orders_Some_Inr set_array_sort)
  with a have "advancedFilterPredicate env (advancedFilters c) order = Inr True"
    by (auto simp: filtered_Inr_iff)
  then show "patients order \<noteq> None"
    using advancedFilterPredicate_no_patient [of order env "advancedFilters c"] by auto
next
  assume b: "\<not> anyAdvanced (advancedFilters c) \<and> patients order = None"
  let ?f = "filter (\<lambda>order. basicKeeps c order \<and>
              (debouncedTerm c \<noteq> [] \<longrightarrow>
                 searchPredicate env (toLowerCase env (debouncedTerm c)) order)) allOrders"
  have "filtered env c allOrders = Inr ?f"
    using b by (simp add: filtered_Inr_iff)
  then have "orders env c (Some allOrders) = Inr (array_sort (compareOrders env) ?f)"
    by (simp add: orders_Some_Inr)
  moreover have "order \<in> set (array_sort (compareOrders env) ?f) \<longleftrightarrow>
            order \<in> set allOrders \<and>
            archivePredicate (archiveFilter (archive_status c)) order \<and>
            \<not> truthy (accountFilter c) \<and>
            (activeFilters c \<noteq> [] \<longrightarrow>
               (\<exists>s. workflow_stage order = Some s \<and> s \<noteq> [] \<and> s \<in> set (activeFilters c))) \<and>
            (truthy (stoplightFilter c) \<longrightarrow> stoplight_status order = stoplightFilter c) \<and>
            (debouncedTerm c \<noteq> [] \<longrightarrow>
               (\<exists>s. workflow_stage order = Some s \<and>
                  str_includes (toLowerCase env s) (toLowerCase env (debouncedTerm c))))"
    using b by (simp add: set_array_sort basicKeeps_no_patient searchPredicate_no_patient)
  ultimately show "\<exists>res'. orders env c (Some allOrders) = Inr res' \<and>
         (order \<in> set res' \<longleftrightarrow>
            order \<in> set allOrders \<and>
            archivePredicate (archiveFilter (archive_status c)) order \<and>
            \<not> truthy (accountFilter c) \<and>
            (activeFilters c \<noteq> [] \<longrightarrow>
               (\<exists>s. workflow_stage order = Some s \<and> s \<noteq> [] \<and> s \<in> set (activeFilters c))) \<and>
            (truthy (stoplightFilter c) \<longrightarrow> stoplight_status order = stoplightFilter c) \<and>
            (debouncedTerm c \<noteq> [] \<longrightarrow>
               (\<exists>s. workflow_stage order = Some s \<and>
                  str_includes (toLowerCase env s) (toLowerCase env (debouncedTerm c)))))"
    by blast
qed

text \<open>
  Both cases of \<open>advanced_filter_requires_patient\<close> occur: a filter on the payer region
  alone drops the order without a patient although its region matches, and with no
  advanced filter the order is in the result.
\<close>

theorem advanced_filter_requires_patient_witness:
  "anyAdvanced (noFilters \<lparr> af_payer_region := Some ''East'' \<rparr>) \<and>
   patients nopatient = None \<and> payer_region nopatient = Some ''East'' \<and>
   orders utc_env
     (no_criteria \<lparr> advancedFilters := noFilters \<lparr> af_payer_region := Some ''East'' \<rparr> \<rparr>)
     (Some [order1, nopatient]) = Inr [order1] \<and>
   patients order1 \<noteq> None \<and>
   \<not> anyAdvanced noFilters \<and>
   orders utc_env no_criteria (Some [order1, nopatient]) = Inr [nopatient, order1]"
proof -
  let ?c = "no_criteria \<lparr> advancedFilters := noFilters \<lparr> af_payer_region := Some ''East'' \<rparr> \<rparr>"
  have a: "anyAdvanced (advancedFilters ?c)"
    by (simp add: anyAdvanced_def truthy_def noFilters_def)
  have r: "orders utc_env ?c (Some [order1, nopatient]) = Inr [order1]"
    by (simp add: eval_defs)
  have m: "order1 \<in> set [order1]" by simp
  have p: "patients order1 \<noteq> None"
    by (rule advanced_filter_requires_patient
          [THEN conjunct1, THEN mp, OF conjI [OF a conjI [OF r m]]])
  have n: "patients nopatient = None \<and> payer_region nopatient = Some ''East''"
    by (simp add: nopatient_def order1_def)
  have b: "\<not> anyAdvanced noFilters"
    by (simp add: anyAdvanced_def truthy_def noFilters_def)
  have r': "orders utc_env no_criteria (Some [order1, nopatient]) = Inr [nopatient, order1]"
    by (simp add: eval_defs)
  have a': "anyAdvanced (noFilters \<lparr> af_payer_region := Some ''East'' \<rparr>)"
    using a by (simp add: no_criteria_def)
  show ?thesis by (intro conjI a' r p b r' n [THEN conjunct1] n [THEN conjunct2])
qed

section \<open>The referral-date range\<close>











section \<open>The order of the result\<close>

lemma total_preorder_compareOrders:
  "total_preorder (localeCompare env) \<Longrightarrow> total_preorder (compareOrders env)"
  unfolding total_preorder_def compareOrders_def by blast

lemma total_preorder_utc_env: "total_preorder (localeCompare utc_env)"
proof -
  have "localeCompare utc_env a b \<le> 0 \<longleftrightarrow> a \<le> b" for a b
    by (auto simp: utc_env_def)
  then show ?thesis unfolding total_preorder_def by auto
qed

lemma archiveFilter_modes:
  "archiveFilter (Some ''active'') = ''active''"
  "archiveFilter (Some ''archived'') = ''archived''"
  "archiveFilter (Some ''all'') = ''all''"
  by (simp_all add: archiveFilter_def)

lemma archiveFilter_default:
  "p \<noteq> Some ''active'' \<Longrightarrow> p \<noteq> Some ''archived'' \<Longrightarrow> p \<noteq> Some ''all'' \<Longrightarrow>
   archiveFilter p = ''active''"
  by (cases p) (auto simp: archiveFilter_def)

lemma filtered_archive_status_cong:
  "archiveFilter p = archiveFilter q \<Longrightarrow>
   filtered env (c \<lparr> archive_status := p \<rparr>) allOrders =
   filtered env (c \<lparr> archive_status := q \<rparr>) allOrders"
  by (simp add: filtered_def Let_def cong: option.case_cong sum.case_cong)

lemma basicKeeps_mode:
  "basicKeeps (c \<lparr> archive_status := Some ''active'' \<rparr>) order \<longleftrightarrow>
     is_archived order \<noteq> Some True \<and> basicKeeps (c \<lparr> archive_status := Some ''all'' \<rparr>) order"
  "basicKeeps (c \<lparr> archive_status := Some ''archived'' \<rparr>) order \<longleftrightarrow>
     is_archived order = Some True \<and> basicKeeps (c \<lparr> archive_status := Some ''all'' \<rparr>) order"
  by (auto simp: basicKeeps_def archiveFilter_modes archivePredicate_def cong: option.case_cong)

lemma filtered_restrict:
  assumes "filtered env c allOrders = Inr f"
    and "\<And>order. basicKeeps c' order \<longleftrightarrow> P order \<and> basicKeeps c order"
    and "advancedFilters c' = advancedFilters c" and "debouncedTerm c' = debouncedTerm c"
  shows "filtered env c' allOrders = Inr (filter P f)"
proof -
  note x = assms(1) [unfolded filtered_Inr_iff]
  note ok = x [THEN conjunct1] and f = x [THEN conjunct2]
  have ok': "anyAdvanced (advancedFilters c') \<longrightarrow>
        (\<forall>order\<in>set allOrders. basicKeeps c' order \<longrightarrow>
           (\<exists>b. advancedFilterPredicate env (advancedFilters c') order = Inr b))"
    using ok by (simp add: assms(2,3))
  have f': "filter P f = filter (\<lambda>order. basicKeeps c' order \<and>
            (anyAdvanced (advancedFilters c') \<longrightarrow>
               advancedFilterPredicate env (advancedFilters c') order = Inr True) \<and>
            (debouncedTerm c' \<noteq> [] \<longrightarrow>
               searchPredicate env (toLowerCase env (debouncedTerm c')) order)) allOrders"
    unfolding f filter_filter assms(2,3,4) by (rule filter_cong) auto
  show ?thesis
    unfolding filtered_Inr_iff by (intro conjI ok' f')
qed

lemma orders_restrict:
  assumes "total_preorder (localeCompare env)"
    and "orders env c allOrders = Inr res"
    and "\<And>order. basicKeeps c' order \<longleftrightarrow> P order \<and> basicKeeps c order"
    and "advancedFilters c' = advancedFilters c" and "debouncedTerm c' = debouncedTerm c"
  shows "orders env c' allOrders = Inr (filter P res)"
proof (cases allOrders)
  case None
  with assms(2) show ?thesis by (auto simp: orders_def)
next
  case (Some all)
  with assms(2) obtain f where f: "filtered env c all = Inr f"
    and res: "res = array_sort (compareOrders env) f"
    by (auto simp: orders_Some_Inr)
  from filtered_restrict [OF f assms(3,4,5)]
  have "filtered env c' all = Inr (filter P f)" .
  then have "orders env c' (Some all) = Inr (array_sort (compareOrders env) (filter P f))"
    by (simp add: orders_Some_Inr)
  then show ?thesis
    using Some res assms(1)
    by (simp add: filter_array_sort total_preorder_compareOrders)
qed

subsection \<open>The final sort\<close>

text \<open>
  Claim C7. For a comparison \<^verbatim>\<open>localeCompare\<close> that is total and transitive, and whenever
  the filters return the list \<open>pre\<close>, the pipeline returns a permutation of \<open>pre\<close> that
  ascends by the patient name under \<^verbatim>\<open>localeCompare\<close>. The sort is stable: for every name
  \<open>k\<close>, the records whose names compare equal to \<open>k\<close> come in the order they have in
  \<open>pre\<close>. A record without a patient or without a name is sorted as the empty string,
  and it comes before every record whose name compares greater than the empty string.
\<close>

theorem orders_sorted_stable:
  assumes "total_preorder (localeCompare env)" and "filtered env c allOrders = Inr pre"
  shows "\<exists>res. orders env c (Some allOrders) = Inr res \<and>
           mset res = mset pre \<and>
           sorted_wrt (\<lambda>a b. localeCompare env (sortName a) (sortName b) \<le> 0) res \<and>
           (\<forall>k. filter (\<lambda>order. localeCompare env (sortName order) k \<le> 0 \<and>
                               localeCompare env k (sortName order) \<le> 0) res =
                filter (\<lambda>order. localeCompare env (sortName order) k \<le> 0 \<and>
                               localeCompare env k (sortName order) \<le> 0) pre) \<and>
           (\<forall>i j. i < length res \<and> j < length res \<and> sortName (res ! i) = [] \<and>
                  0 < localeCompare env (sortName (res ! j)) [] \<longrightarrow> i < j) \<and>
           (\<forall>order. patients order = None \<or>
                     (\<exists>p. patients order = Some p \<and> (name p = None \<or> name p = Some []))
                     \<longrightarrow> sortName order = [])"
proof -
  let ?res = "array_sort (compareOrders env) pre"
  let ?le = "\<lambda>a b. localeCompare env (sortName a) (sortName b) \<le> 0"
  have tot: "\<And>a b. localeCompare env a b \<le> 0 \<or> localeCompare env b a \<le> 0"
    and tr: "\<And>a b c. localeCompare env a b \<le> 0 \<Longrightarrow> localeCompare env b c \<le> 0 \<Longrightarrow>
                 localeCompare env a c \<le> 0"
    using assms(1) unfolding total_preorder_def by blast+
  have tp: "total_preorder (compareOrders env)"
    using assms(1) by (rule total_preorder_compareOrders)
  have res: "orders env c (Some allOrders) = Inr ?res"
    using assms(2) by (simp add: orders_Some_Inr)
  have perm: "mset ?res = mset pre" by (rule mset_array_sort)
  have sorted: "sorted_wrt ?le ?res"
    using sorted_array_sort [OF tp, of pre] by (simp add: compareOrders_def)
  have stable: "\<forall>k. filter (\<lambda>order. localeCompare env (sortName order) k \<le> 0 \<and>
                               localeCompare env k (sortName order) \<le> 0) ?res =
                filter (\<lambda>order. localeCompare env (sortName order) k \<le> 0 \<and>
                               localeCompare env k (sortName order) \<le> 0) pre"
  proof
    fix k
    show "filter (\<lambda>order. localeCompare env (sortName order) k \<le> 0 \<and>
                               localeCompare env k (sortName order) \<le> 0) ?res =
                filter (\<lambda>order. localeCompare env (sortName order) k \<le> 0 \<and>
                               localeCompare env k (sortName order) \<le> 0) pre"
      by (rule array_sort_stable_class [OF tp]) (auto simp: compareOrders_def intro: tr)
  qed
  have first: "\<forall>i j. i < length ?res \<and> j < length ?res \<and> sortName (?res ! i) = [] \<and>
                  0 < localeCompare env (sortName (?res ! j)) [] \<longrightarrow> i < j"
  proof (intro allI impI)
    fix i j
    assume h: "i < length ?res \<and> j < length ?res \<and> sortName (?res ! i) = [] \<and>
               0 < localeCompare env (sortName (?res ! j)) []"
    show "i < j"
    proof (rule ccontr)
      assume "\<not> i < j"
      then consider "j = i" | "j < i" by linarith
      then have "localeCompare env (sortName (?res ! j)) (sortName (?res ! i)) \<le> 0"
      proof cases
        case 1
        then show ?thesis using tot [of "sortName (?res ! i)" "sortName (?res ! i)"] by simp
      next
        case 2
        with h have "j < i \<and> i < length ?res" by simp
        with sorted show ?thesis unfolding sorted_wrt_iff_nth_less by blast
      qed
      with h show False by simp
    qed
  qed
  have missing: "\<forall>order. patients order = None \<or>
                     (\<exists>p. patients order = Some p \<and> (name p = None \<or> name p = Some []))
                     \<longrightarrow> sortName order = []"
    by (auto simp: sortName_def)
  show ?thesis
    by (rule exI [of _ ?res]) (intro conjI res perm sorted stable first missing)
qed

text \<open>
  The hypotheses of \<open>orders_sorted_stable\<close> hold in the UTC runtime: of four fetched
  orders the one without a patient comes first, and the two orders of the patient
  \<^verbatim>\<open>Ann\<close> keep the order in which they were fetched.
\<close>

theorem orders_sorted_stable_witness:
  "total_preorder (localeCompare utc_env) \<and>
   filtered utc_env (no_criteria \<lparr> archive_status := Some ''all'' \<rparr>)
     [order5, order4, order1, nopatient] = Inr [order5, order4, order1, nopatient] \<and>
   orders utc_env (no_criteria \<lparr> archive_status := Some ''all'' \<rparr>)
     (Some [order5, order4, order1, nopatient]) = Inr [nopatient, order4, order1, order5] \<and>
   sortName nopatient = [] \<and> sortName order4 = ''Ann'' \<and> sortName order1 = ''Ann'' \<and>
   sortName order5 = ''Bob'' \<and>
   mset [nopatient, order4, order1, order5] = mset [order5, order4, order1, nopatient]"
proof -
  let ?c = "no_criteria \<lparr> archive_status := Some ''all'' \<rparr>"
  have f: "filtered utc_env ?c [order5, order4, order1, nopatient] =
           Inr [order5, order4, order1, nopatient]"
    by (simp add: eval_defs)
  have r: "orders utc_env ?c (Some [order5, order4, order1, nopatient]) =
           Inr [nopatient, order4, order1, order5]"
    by (simp add: eval_defs)
  from orders_sorted_stable [OF total_preorder_utc_env f]
  obtain res where "orders utc_env ?c (Some [order5, order4, order1, nopatient]) = Inr res"
    and "mset res = mset [order5, order4, order1, nopatient]"
    by blast
  with r have p: "mset [nopatient, order4, order1, order5] =
                  mset [order5, order4, order1, nopatient]"
    by simp
  have n: "sortName nopatient = []" "sortName order4 = ''Ann''" "sortName order1 = ''Ann''"
    "sortName order5 = ''Bob''"
    by (simp_all add: eval_defs)
  show ?thesis by (intro conjI total_preorder_utc_env f r n p)
qed

subsection \<open>The archive modes\<close>

lemma orders_archive_default:
  assumes "p \<noteq> Some ''active'' \<and> p \<noteq> Some ''archived'' \<and> p \<noteq> Some ''all''"
  shows "orders env (c \<lparr> archive_status := p \<rparr>) allOrders =
         orders env (c \<lparr> archive_status := Some ''active'' \<rparr>) allOrders"
proof -
  have "archiveFilter p = archiveFilter (Some ''active'')"
    using assms by (simp add: archiveFilter_default archiveFilter_modes)
  from filtered_archive_status_cong [OF this, of env c]
  show ?thesis by (cases allOrders) (simp_all add: orders_def)
qed

lemma orders_archive_split:
  assumes "total_preorder (localeCompare env)"
    and "orders env (c \<lparr> archive_status := Some ''all'' \<rparr>) allOrders = Inr res"
  shows "orders env (c \<lparr> archive_status := Some ''active'' \<rparr>) allOrders =
           Inr (filter (\<lambda>order. is_archived order \<noteq> Some True) res)"
    and "orders env (c \<lparr> archive_status := Some ''archived'' \<rparr>) allOrders =
           Inr (filter (\<lambda>order. is_archived order = Some True) res)"
  by (rule orders_restrict [OF assms]; simp add: basicKeeps_mode)+

text \<open>
  Claim C9. Fix the other criteria and let the pipeline return \<open>res\<close> in the mode
  \<^verbatim>\<open>'all'\<close>, for a comparison \<^verbatim>\<open>localeCompare\<close> that is total and transitive. Then it
  returns in the modes \<^verbatim>\<open>'active'\<close> and \<^verbatim>\<open>'archived'\<close>, with the records of \<open>res\<close> whose
  \<^verbatim>\<open>is_archived\<close> is not \<^verbatim>\<open>true\<close> (so also \<^verbatim>\<open>null\<close> and \<^verbatim>\<open>undefined\<close>) and those whose
  \<^verbatim>\<open>is_archived\<close> is \<^verbatim>\<open>true\<close>, each in the order of \<open>res\<close>. The two results are disjoint and
  together hold exactly the records of \<open>res\<close>. In every case, a missing or unrecognised
  \<^verbatim>\<open>archive_status\<close> parameter gives what \<^verbatim>\<open>'active'\<close> gives.
\<close>

theorem archive_modes_partition:
  "(total_preorder (localeCompare env) \<and>
    orders env (c \<lparr> archive_status := Some ''all'' \<rparr>) allOrders = Inr res \<longrightarrow>
      (\<exists>act arch.
         orders env (c \<lparr> archive_status := Some ''active'' \<rparr>) allOrders = Inr act \<and>
         orders env (c \<lparr> archive_status := Some ''archived'' \<rparr>) allOrders = Inr arch \<and>
         act = filter (\<lambda>order. is_archived order \<noteq> Some True) res \<and>
         arch = filter (\<lambda>order. is_archived order = Some True) res \<and>
         set act \<inter> set arch = {} \<and>
         mset act + mset arch = mset res)) \<and>
   (\<forall>p. p \<noteq> Some ''active'' \<and> p \<noteq> Some ''archived'' \<and> p \<noteq> Some ''all'' \<longrightarrow>
      orders env (c \<lparr> archive_status := p \<rparr>) allOrders =
      orders env (c \<lparr> archive_status := Some ''active'' \<rparr>) allOrders)"
proof (intro conjI impI allI)
  assume h: "total_preorder (localeCompare env) \<and>
    orders env (c \<lparr> archive_status := Some ''all'' \<rparr>) allOrders = Inr res"
  let ?act = "filter (\<lambda>order. is_archived order \<noteq> Some True) res"
  let ?arch = "filter (\<lambda>order. is_archived order = Some True) res"
  note split = orders_archive_split [OF h [THEN conjunct1] h [THEN conjunct2]]
  have disj: "set ?act \<inter> set ?arch = {}" by auto
  have cover: "mset ?act + mset ?arch = mset res"
    using multiset_partition [of "mset res" "\<lambda>order. is_archived order \<noteq> Some True"]
    by simp
  show "\<exists>act arch.
         orders env (c \<lparr> archive_status := Some ''active'' \<rparr>) allOrders = Inr act \<and>
         orders env (c \<lparr> archive_status := Some ''archived'' \<rparr>) allOrders = Inr arch \<and>
         act = filter (\<lambda>order. is_archived order \<noteq> Some True) res \<and>
         arch = filter (\<lambda>order. is_archived order = Some True) res \<and>
         set act \<inter> set arch = {} \<and>
         mset act + mset arch = mset res"
    by (rule exI [of _ ?act], rule exI [of _ ?arch]) (intro conjI split disj cover refl)
next
  fix p :: "string option"
  assume "p \<noteq> Some ''active'' \<and> p \<noteq> Some ''archived'' \<and> p \<noteq> Some ''all''"
  then show "orders env (c \<lparr> archive_status := p \<rparr>) allOrders =
      orders env (c \<lparr> archive_status := Some ''active'' \<rparr>) allOrders"
    by (rule orders_archive_default)
qed

text \<open>
  The hypotheses of \<open>archive_modes_partition\<close> hold in the UTC runtime for four fetched
  orders, one archived and one whose \<^verbatim>\<open>is_archived\<close> is \<^verbatim>\<open>null\<close>.
\<close>

theorem archive_modes_partition_witness:
  "total_preorder (localeCompare utc_env) \<and>
   orders utc_env (no_criteria \<lparr> archive_status := Some ''all'' \<rparr>)
     (Some [order5, order4, order1, nopatient]) = Inr [nopatient, order4, order1, order5] \<and>
   orders utc_env (no_criteria \<lparr> archive_status := Some ''active'' \<rparr>)
     (Some [order5, order4, order1, nopatient]) = Inr [nopatient, order1, order5] \<and>
   orders utc_env (no_criteria \<lparr> archive_status := Some ''archived'' \<rparr>)
     (Some [order5, order4, order1, nopatient]) = Inr [order4] \<and>
   orders utc_env (no_criteria \<lparr> archive_status := Some ''deleted'' \<rparr>)
     (Some [order5, order4, order1, nopatient]) = Inr [nopatient, order1, order5] \<and>
   orders utc_env (no_criteria \<lparr> archive_status := None \<rparr>)
     (Some [order5, order4, order1, nopatient]) = Inr [nopatient, order1, order5]"
proof -
  let ?all = "Some [order5, order4, order1, nopatient]"
  have r: "orders utc_env (no_criteria \<lparr> archive_status := Some ''all'' \<rparr>) ?all =
           Inr [nopatient, order4, order1, order5]"
    by (simp add: eval_defs)
  have a: "filter (\<lambda>order. is_archived order \<noteq> Some True) [nopatient, order4, order1, order5] =
           [nopatient, order1, order5]"
    and b: "filter (\<lambda>order. is_archived order = Some True) [nopatient, order4, order1, order5] =
           [order4]"
    by (simp_all add: order1_def nopatient_def order3_def order4_def order5_def)
  note t = archive_modes_partition [of utc_env no_criteria ?all "[nopatient, order4, order1, order5]"]
  from t [THEN conjunct1, THEN mp, OF conjI [OF total_preorder_utc_env r]]
  obtain act arch where
    "orders utc_env (no_criteria \<lparr> archive_status := Some ''active'' \<rparr>) ?all = Inr act"
    "orders utc_env (no_criteria \<lparr> archive_status := Some ''archived'' \<rparr>) ?all = Inr arch"
    "act = filter (\<lambda>order. is_archived order \<noteq> Some True) [nopatient, order4, order1, order5]"
    "arch = filter (\<lambda>order. is_archived order = Some True) [nopatient, order4, order1, order5]"
    by blast
  then have act: "orders utc_env (no_criteria \<lparr> archive_status := Some ''active'' \<rparr>) ?all =
       Inr [nopatient, order1, order5]"
    and arch: "orders utc_env (no_criteria \<lparr> archive_status := Some ''archived'' \<rparr>) ?all =
       Inr [order4]"
    by (simp_all only: a b)
  from t [THEN conjunct2, THEN spec, of "Some ''deleted''"] act
  have d1: "orders utc_env (no_criteria \<lparr> archive_status := Some ''deleted'' \<rparr>) ?all =
       Inr [nopatient, order1, order5]"
    by simp
  from t [THEN conjunct2, THEN spec, of None] act
  have d2: "orders utc_env (no_criteria \<lparr> archive_status := None \<rparr>) ?all =
       Inr [nopatient, order1, order5]"
    by simp
  show ?thesis by (intro conjI total_preorder_utc_env r act arch d1 d2)
qed

section \<open>Stage order and regressions\<close>

lemma indexOf_nth:
  "distinct xs \<Longrightarrow> i < length xs \<Longrightarrow> indexOf xs (xs ! i) = Some i"
proof (induction xs arbitrary: i)
  case Nil
  then show ?case by simp
next
  case (Cons y ys)
  show ?case
  proof (cases i)
    case 0
    then show ?thesis by simp
  next
    case (Suc k)
    with Cons.prems have "k < length ys" and "ys ! k \<noteq> y" by auto
    with Cons Suc show ?thesis by simp
  qed
qed

lemma isBackward_index:
  "indexOf stages cur = Some i \<Longrightarrow> indexOf stages new = Some j \<Longrightarrow>
   isBackward stages (Some cur) (Some new) \<longleftrightarrow> j < i"
  by (simp add: isBackward_def)

lemma isBackward_imp_index:
  "isBackward stages cur new \<Longrightarrow>
   \<exists>c n i j. cur = Some c \<and> new = Some n \<and> indexOf stages c = Some i \<and>
     indexOf stages n = Some j \<and> j < i"
  by (auto simp: isBackward_def split: option.splits)

text \<open>
  Claim C5. In a list of distinct stages, the transition from the stage at index \<open>i\<close> to
  the stage at index \<open>j\<close> is a regression exactly when \<open>j < i\<close>: from index 3 to index 1
  it is, from index 1 to index 3 it is not, and to the same index it is not.
\<close>

theorem isBackward_iff_earlier_index:
  assumes "distinct stages" and "i < length stages" and "j < length stages"
  shows "(isBackward stages (Some (stages ! i)) (Some (stages ! j)) \<longleftrightarrow> j < i) \<and>
         (i = 3 \<and> j = 1 \<longrightarrow> isBackward stages (Some (stages ! i)) (Some (stages ! j))) \<and>
         (i = 1 \<and> j = 3 \<longrightarrow> \<not> isBackward stages (Some (stages ! i)) (Some (stages ! j))) \<and>
         (i = j \<longrightarrow> \<not> isBackward stages (Some (stages ! i)) (Some (stages ! j)))"
proof -
  have "isBackward stages (Some (stages ! i)) (Some (stages ! j)) \<longleftrightarrow> j < i"
    using assms by (simp add: isBackward_index indexOf_nth)
  then show ?thesis by auto
qed

text \<open>
  The hypotheses of \<open>isBackward_iff_earlier_index\<close> hold for a list of four stages and
  the indices 3 and 1.
\<close>

theorem isBackward_iff_earlier_index_witness:
  "distinct example_stages \<and> length example_stages = 4 \<and>
   example_stages ! 3 = ''Delivery'' \<and> example_stages ! 1 = ''Docs'' \<and>
   isBackward example_stages (Some ''Delivery'') (Some ''Docs'') \<and>
   \<not> isBackward example_stages (Some ''Docs'') (Some ''Delivery'') \<and>
   \<not> isBackward example_stages (Some ''Docs'') (Some ''Docs'')"
proof -
  have d: "distinct example_stages" and l: "length example_stages = 4"
    and n3: "example_stages ! 3 = ''Delivery''" and n1: "example_stages ! 1 = ''Docs''"
    by (simp_all add: example_stages_def)
  have n1': "example_stages ! Suc 0 = ''Docs''" using n1 by simp
  have b3: "(3::nat) < length example_stages" and b1: "(1::nat) < length example_stages"
    using l by simp_all
  from isBackward_iff_earlier_index [OF d b3 b1]
  have a: "isBackward example_stages (Some ''Delivery'') (Some ''Docs'')"
    by (simp add: n3 n1')
  from isBackward_iff_earlier_index [OF d b1 b3]
  have b: "\<not> isBackward example_stages (Some ''Docs'') (Some ''Delivery'')"
    by (simp add: n3 n1')
  from isBackward_iff_earlier_index [OF d b1 b1]
  have c: "\<not> isBackward example_stages (Some ''Docs'') (Some ''Docs'')"
    by (simp add: n1')
  show ?thesis by (intro conjI d l n3 n1 a b c)
qed

lemma regressions_update_stage [simp]:
  "regressions (update_stage oid stage stageNote now d) = regressions d"
  by (simp add: update_stage_def)

lemma handleStageSave_not_backward:
  assumes "\<not> isBackward stages (case sel of None \<Rightarrow> None | Some s \<Rightarrow> workflow_stage s)
             (Some (newStage args))"
  shows "regressions (handleStageSave stages resp now user sel args d) = regressions d"
  using assms
  by (cases sel) (auto simp: handleStageSave_def Let_def split: option.splits)

lemma handleStageSave_detail_not_backward:
  assumes "\<not> isBackward stages (case ord of None \<Rightarrow> None | Some s \<Rightarrow> workflow_stage s)
             (Some (newStage args))"
  shows "regressions (handleStageSave_detail stages resp now user ord pat args d) = regressions d"
  using assms
  by (cases ord) (auto simp: handleStageSave_detail_def Let_def split: option.splits)

lemma save_not_backward:
  "\<not> isBackward stages (event_from e) (Some (event_to e)) \<Longrightarrow>
   regressions (save stages e d) = regressions d"
  by (cases e) (simp_all add: handleStageSave_not_backward handleStageSave_detail_not_backward)

lemma saves_not_backward:
  "(\<forall>e\<in>set es. \<not> isBackward stages (event_from e) (Some (event_to e))) \<Longrightarrow>
   regressions (saves stages es d) = regressions d"
  by (induction es arbitrary: d) (simp_all add: save_not_backward)

text \<open>
  Claim C8. A stage-change save from either page whose new stage is not at a strictly
  earlier index than the stage of the order leaves the table \<^verbatim>\<open>regressions\<close> as it is; a
  save that changes the table moves to a strictly earlier index of the stage list; and
  after any history of saves none of which moves backward the table is unchanged.
\<close>

theorem regression_only_when_backward:
  "(\<not> isBackward stages (event_from e) (Some (event_to e)) \<longrightarrow>
      regressions (save stages e d) = regressions d) \<and>
   (regressions (save stages e d) \<noteq> regressions d \<longrightarrow>
      (\<exists>cur i j. event_from e = Some cur \<and> indexOf stages cur = Some i \<and>
         indexOf stages (event_to e) = Some j \<and> j < i)) \<and>
   ((\<forall>e'\<in>set es. \<not> isBackward stages (event_from e') (Some (event_to e'))) \<longrightarrow>
      regressions (saves stages es d) = regressions d)"
proof (intro conjI impI)
  assume "\<not> isBackward stages (event_from e) (Some (event_to e))"
  then show "regressions (save stages e d) = regressions d" by (rule save_not_backward)
next
  assume "regressions (save stages e d) \<noteq> regressions d"
  then have "isBackward stages (event_from e) (Some (event_to e))"
    using save_not_backward [of stages e d] by blast
  from isBackward_imp_index [OF this]
  show "\<exists>cur i j. event_from e = Some cur \<and> indexOf stages cur = Some i \<and>
         indexOf stages (event_to e) = Some j \<and> j < i"
    by auto
next
  assume "\<forall>e'\<in>set es. \<not> isBackward stages (event_from e') (Some (event_to e'))"
  then show "regressions (saves stages es d) = regressions d" by (rule saves_not_backward)
qed

text \<open>The definitions a concrete save unfolds.\<close>

lemmas save_defs = handleStageSave_def handleStageSave_detail_def update_stage_def Let_def
  isBackward_def example_stages_def db0_def ok_responses_def forward_save_def
  same_stage_save_def backward_save_def order1_def ann_def truthy_def

text \<open>
  The hypotheses of \<open>regression_only_when_backward\<close> hold for a forward save and a save
  to the same stage, alone and in sequence; a backward save with a reason writes one row.
\<close>

theorem regression_only_when_backward_witness:
  "\<not> isBackward example_stages (event_from forward_save) (Some (event_to forward_save)) \<and>
   \<not> isBackward example_stages (event_from same_stage_save) (Some (event_to same_stage_save)) \<and>
   regressions db0 = [] \<and>
   regressions (save example_stages forward_save db0) = [] \<and>
   regressions (saves example_stages [forward_save, same_stage_save] db0) = [] \<and>
   length (regressions (save example_stages backward_save db0)) = 1 \<and>
   event_from backward_save = Some ''Docs'' \<and> event_to backward_save = ''Intake'' \<and>
   indexOf example_stages ''Docs'' = Some 1 \<and> indexOf example_stages ''Intake'' = Some 0"
proof -
  have f: "\<not> isBackward example_stages (event_from forward_save) (Some (event_to forward_save))"
    and s: "\<not> isBackward example_stages (event_from same_stage_save)
              (Some (event_to same_stage_save))"
    by (simp_all add: save_defs)
  have z: "regressions db0 = []" by (simp add: db0_def)
  note t = regression_only_when_backward
  from t [of example_stages forward_save db0, THEN conjunct1] f z
  have one: "regressions (save example_stages forward_save db0) = []" by simp
  have "\<forall>e'\<in>set [forward_save, same_stage_save].
          \<not> isBackward example_stages (event_from e') (Some (event_to e'))"
    using f s by simp
  with t [of example_stages forward_save db0 "[forward_save, same_stage_save]",
          THEN conjunct2, THEN conjunct2] z
  have many: "regressions (saves example_stages [forward_save, same_stage_save] db0) = []"
    by simp
  have bwd: "length (regressions (save example_stages backward_save db0)) = 1"
    by (simp add: save_defs)
  have e: "event_from backward_save = Some ''Docs''" "event_to backward_save = ''Intake''"
    "indexOf example_stages ''Docs'' = Some 1" "indexOf example_stages ''Intake'' = Some 0"
    by (simp_all add: save_defs)
  show ?thesis by (intro conjI f s z one many bwd e)
qed

section \<open>Dashboard metrics and trends\<close>

lemma foldl_plus_sum_list:
  fixes a :: "'b::comm_monoid_add"
  shows "foldl (\<lambda>sum x. sum + f x) a xs = a + sum_list (map f xs)"
  by (induction xs arbitrary: a) (simp_all add: add.assoc)

lemma ready_per_claim_iff:
  "ready_per_claim ord \<longleftrightarrow>
     length (requiredDocs ord) > 0 \<and> list_all (docComplete ord) (requiredDocs ord)"
  by (auto simp: ready_per_claim_def requiredDocs_def docComplete_def list_all_iff
      split: option.splits)

lemma periodOrders_eq:
  "filter (\<lambda>ord. let createdAt = new_Date env (created_at ord)
                 in date_le (Some from) createdAt \<and> date_le createdAt (Some to)) ords =
   filter (in_window env from to) ords"
  by (rule filter_cong) (auto simp: in_window_def date_le_def split: option.splits)

lemma readyForPar_eq:
  "readyForPar (calculateMetricsForPeriod env stages daysOld ords from to) =
   length (filter (\<lambda>ord. in_window env from to ord \<and> ready_per_claim ord) ords)"
  unfolding calculateMetricsForPeriod_def periodOrders_eq
  by (simp add: Let_def ready_per_claim_iff conj_commute)

lemma docsCompletePercent_eq:
  "docsCompletePercent (calculateMetricsForPeriod env stages daysOld ords from to) =
   (let total = (\<Sum>ord\<leftarrow>filter (in_window env from to) ords. length (requiredDocs ord));
        completed = (\<Sum>ord\<leftarrow>filter (in_window env from to) ords.
                       length (filter (docComplete ord) (requiredDocs ord)))
    in if 0 < total then of_nat completed / of_nat total * 100 else 0)"
  unfolding calculateMetricsForPeriod_def periodOrders_eq
  by (simp add: Let_def foldl_plus_sum_list)

lemma trendMap_snoc:
  "trendMap env getWeek (xs @ [x]) = trendStep env getWeek (trendMap env getWeek xs) x"
  by (simp add: trendMap_def)

lemma trendMap_bucket:
  "trendMap env getWeek xs wk =
     (if \<exists>ord\<in>set xs. getWeek (new_Date env (created_at ord)) = wk
      then Some \<lparr> week = wk,
                  New_Referrals =
                    length (filter (\<lambda>ord. getWeek (new_Date env (created_at ord)) = wk) xs),
                  Docs_Ready =
                    length (filter (\<lambda>ord. getWeek (new_Date env (created_at ord)) = wk \<and>
                                          ready_per_claim ord) xs),
                  Archived =
                    length (filter (\<lambda>ord. getWeek (new_Date env (created_at ord)) = wk \<and>
                                          is_archived ord = Some True) xs) \<rparr>
      else None)"
proof (induction xs rule: rev_induct)
  case Nil
  show ?case by (simp add: trendMap_def)
next
  case (snoc x xs)
  show ?case
  proof (cases "getWeek (new_Date env (created_at x)) = wk")
    case False
    then show ?thesis
      using snoc.IH by (simp add: trendMap_snoc trendStep_def Let_def)
  next
    case True
    show ?thesis
    proof (cases "\<exists>ord\<in>set xs. getWeek (new_Date env (created_at ord)) = wk")
      case seen: True
      with True snoc.IH show ?thesis
        by (simp add: trendMap_snoc trendStep_def Let_def ready_per_claim_iff)
    next
      case fresh: False
      then have "filter (\<lambda>ord. getWeek (new_Date env (created_at ord)) = wk) xs = []"
        "filter (\<lambda>ord. getWeek (new_Date env (created_at ord)) = wk \<and> ready_per_claim ord) xs = []"
        "filter (\<lambda>ord. getWeek (new_Date env (created_at ord)) = wk \<and>
                       is_archived ord = Some True) xs = []"
        by (auto simp: filter_empty_conv)
      with fresh True snoc.IH show ?thesis
        by (simp add: trendMap_snoc trendStep_def Let_def ready_per_claim_iff)
    qed
  qed
qed

lemma ready_per_claim_fields:
  "ready_per_claim ord \<longleftrightarrow>
     (\<exists>p ds. patients ord = Some p \<and> required_documents p = Some ds \<and> ds \<noteq> [] \<and>
        (\<forall>d\<in>set ds. \<exists>st. document_status ord = Some st \<and> st d = Some ''Complete''))"
  by (cases "document_status ord")
     (auto simp: ready_per_claim_def split: option.splits)

text \<open>
  Claim C6. The number \<^verbatim>\<open>readyForPar\<close> of a window counts the orders created in the window
  that are ready. On the Trends page a week has a bucket exactly when some order is
  created in it, and the bucket's \<^verbatim>\<open>Docs Ready\<close> count is the number of ready orders of that
  week (its other two counts are the orders and the archived orders of the week). An
  order is ready exactly when its patient has at least one required document and the
  status of every required document is \<^verbatim>\<open>'Complete'\<close>; an order with no required documents
  is never ready. The completion percentage of a window is the number of complete
  required documents over the number of required documents, times 100, when documents are
  required in the window, and 0 when none is.
\<close>

theorem ready_and_completion_percentage:
  "readyForPar (calculateMetricsForPeriod env stages daysOld ords from to) =
     length (filter (\<lambda>ord. in_window env from to ord \<and> ready_per_claim ord) ords) \<and>
   (\<forall>wk. trendMap env getWeek ords wk =
      (if \<exists>ord\<in>set ords. getWeek (new_Date env (created_at ord)) = wk
       then Some \<lparr> week = wk,
                   New_Referrals =
                     length (filter (\<lambda>ord. getWeek (new_Date env (created_at ord)) = wk) ords),
                   Docs_Ready =
                     length (filter (\<lambda>ord. getWeek (new_Date env (created_at ord)) = wk \<and>
                                           ready_per_claim ord) ords),
                   Archived =
                     length (filter (\<lambda>ord. getWeek (new_Date env (created_at ord)) = wk \<and>
                                           is_archived ord = Some True) ords) \<rparr>
       else None)) \<and>
   (\<forall>ord. ready_per_claim ord \<longleftrightarrow>
      (\<exists>p ds. patients ord = Some p \<and> required_documents p = Some ds \<and> ds \<noteq> [] \<and>
         (\<forall>d\<in>set ds. \<exists>st. document_status ord = Some st \<and> st d = Some ''Complete''))) \<and>
   (\<forall>ord. requiredDocs ord = [] \<longrightarrow> \<not> ready_per_claim ord) \<and>
   (let total = (\<Sum>ord\<leftarrow>filter (in_window env from to) ords. length (requiredDocs ord));
        completed = (\<Sum>ord\<leftarrow>filter (in_window env from to) ords.
                       length (filter (docComplete ord) (requiredDocs ord)));
        percent = docsCompletePercent (calculateMetricsForPeriod env stages daysOld ords from to)
    in (0 < total \<longrightarrow> percent = of_nat completed / of_nat total * 100) \<and>
       (total = 0 \<longrightarrow> percent = 0))"
proof -
  have ready: "readyForPar (calculateMetricsForPeriod env stages daysOld ords from to) =
     length (filter (\<lambda>ord. in_window env from to ord \<and> ready_per_claim ord) ords)"
    by (rule readyForPar_eq)
  have trend: "\<forall>wk. trendMap env getWeek ords wk =
      (if \<exists>ord\<in>set ords. getWeek (new_Date env (created_at ord)) = wk
       then Some \<lparr> week = wk,
                   New_Referrals =
                     length (filter (\<lambda>ord. getWeek (new_Date env (created_at ord)) = wk) ords),
                   Docs_Ready =
                     length (filter (\<lambda>ord. getWeek (new_Date env (created_at ord)) = wk \<and>
                                           ready_per_claim ord) ords),
                   Archived =
                     length (filter (\<lambda>ord. getWeek (new_Date env (created_at ord)) = wk \<and>
                                           is_archived ord = Some True) ords) \<rparr>
       else None)"
    by (intro allI) (rule trendMap_bucket)
  have fields: "\<forall>ord. ready_per_claim ord \<longleftrightarrow>
      (\<exists>p ds. patients ord = Some p \<and> required_documents p = Some ds \<and> ds \<noteq> [] \<and>
         (\<forall>d\<in>set ds. \<exists>st. document_status ord = Some st \<and> st d = Some ''Complete''))"
    by (intro allI) (rule ready_per_claim_fields)
  have never: "\<forall>ord. requiredDocs ord = [] \<longrightarrow> \<not> ready_per_claim ord"
    by (simp add: ready_per_claim_iff)
  have pct: "let total = (\<Sum>ord\<leftarrow>filter (in_window env from to) ords. length (requiredDocs ord));
        completed = (\<Sum>ord\<leftarrow>filter (in_window env from to) ords.
                       length (filter (docComplete ord) (requiredDocs ord)));
        percent = docsCompletePercent (calculateMetricsForPeriod env stages daysOld ords from to)
    in (0 < total \<longrightarrow> percent = of_nat completed / of_nat total * 100) \<and>
       (total = 0 \<longrightarrow> percent = 0)"
    by (simp add: docsCompletePercent_eq Let_def)
  show ?thesis by (intro conjI ready trend fields never pct)
qed

text \<open>The definitions a concrete computation of the metrics unfolds.\<close>

lemmas metric_defs = calculateMetricsForPeriod_def kpis_def Let_def date_le_def requiredDocs_def
  docComplete_def utc_env_def example_dates_def order1_def order6_def order7_def nopatient_def
  ann_def cara_def example_daysOld_def example_stages_def isBackward_def in_window_def
  ready_per_claim_def trendMap_def trendStep_def example_getWeek_def

text \<open>
  The statement \<open>ready_and_completion_percentage\<close> at three orders: one with its one
  required document complete, one with one of two complete, and one without a patient.
  The first week has one order and none ready, the second has two orders and one ready,
  and a third week has no bucket.
\<close>

theorem ready_and_completion_percentage_witness:
  "ready_per_claim order7 \<and> \<not> ready_per_claim order6 \<and> \<not> ready_per_claim nopatient \<and>
   requiredDocs nopatient = [] \<and>
   readyForPar (calculateMetricsForPeriod utc_env example_stages example_daysOld
     [order6, order7, nopatient] 1704067200000 1705363200000) = 1 \<and>
   trendMap utc_env example_getWeek [order6, order7, nopatient] ''2024-W01'' =
     Some \<lparr> week = ''2024-W01'', New_Referrals = 1, Docs_Ready = 0, Archived = 0 \<rparr> \<and>
   trendMap utc_env example_getWeek [order6, order7, nopatient] ''2024-W02'' =
     Some \<lparr> week = ''2024-W02'', New_Referrals = 2, Docs_Ready = 1, Archived = 0 \<rparr> \<and>
   trendMap utc_env example_getWeek [order6, order7, nopatient] ''2024-W03'' = None \<and>
   docsCompletePercent (calculateMetricsForPeriod utc_env example_stages example_daysOld
     [order6, order7, nopatient] 1704067200000 1705363200000) = 200 / 3 \<and>
   docsCompletePercent (calculateMetricsForPeriod utc_env example_stages example_daysOld
     [nopatient] 1704067200000 1705363200000) = 0"
proof -
  note t = ready_and_completion_percentage
    [of utc_env example_stages example_daysOld "[order6, order7, nopatient]"
        1704067200000 1705363200000 example_getWeek]
  have r7: "ready_per_claim order7" and r6: "\<not> ready_per_claim order6"
    and r0: "\<not> ready_per_claim nopatient" and n0: "requiredDocs nopatient = []"
    by (simp_all add: metric_defs)
  have w: "in_window utc_env 1704067200000 1705363200000 order6"
    "in_window utc_env 1704067200000 1705363200000 order7"
    "in_window utc_env 1704067200000 1705363200000 nopatient"
    by (simp_all add: metric_defs)
  from t [THEN conjunct1] r7 r6 r0 w
  have ready: "readyForPar (calculateMetricsForPeriod utc_env example_stages example_daysOld
     [order6, order7, nopatient] 1704067200000 1705363200000) = 1"
    by simp
  have wk: "example_getWeek (new_Date utc_env (created_at order6)) = ''2024-W01''"
    "example_getWeek (new_Date utc_env (created_at order7)) = ''2024-W02''"
    "example_getWeek (new_Date utc_env (created_at nopatient)) = ''2024-W02''"
    by (simp_all add: metric_defs)
  have ar: "is_archived order6 \<noteq> Some True" "is_archived order7 \<noteq> Some True"
    "is_archived nopatient \<noteq> Some True"
    by (simp_all add: metric_defs)
  note tr = t [THEN conjunct2, THEN conjunct1, THEN spec]
  have w1: "trendMap utc_env example_getWeek [order6, order7, nopatient] ''2024-W01'' =
     Some \<lparr> week = ''2024-W01'', New_Referrals = 1, Docs_Ready = 0, Archived = 0 \<rparr>"
    using tr [of "''2024-W01''"] wk ar r7 r6 r0 by simp
  have w2: "trendMap utc_env example_getWeek [order6, order7, nopatient] ''2024-W02'' =
     Some \<lparr> week = ''2024-W02'', New_Referrals = 2, Docs_Ready = 1, Archived = 0 \<rparr>"
    using tr [of "''2024-W02''"] wk ar r7 r6 r0 by simp
  have w3: "trendMap utc_env example_getWeek [order6, order7, nopatient] ''2024-W03'' = None"
    using tr [of "''2024-W03''"] wk by simp
  have pct: "docsCompletePercent (calculateMetricsForPeriod utc_env example_stages
     example_daysOld [order6, order7, nopatient] 1704067200000 1705363200000) = 200 / 3"
    by (simp add: metric_defs)
  have none: "docsCompletePercent (calculateMetricsForPeriod utc_env example_stages
     example_daysOld [nopatient] 1704067200000 1705363200000) = 0"
    by (simp add: metric_defs)
  show ?thesis by (intro conjI r7 r6 r0 n0 ready w1 w2 w3 pct none)
qed

text \<open>
  Claim C3. \<^verbatim>\<open>calculateDelta\<close> gives 100 for a previous value 0 and a positive current
  value, 0 when both are 0, and otherwise the relative change
  \<open>(current - prev) / prev * 100\<close>, so \<open>- 50\<close> for 10 and 5. The deltas of the four counts
  are computed by \<^verbatim>\<open>calculateDelta\<close>; the deltas of the completion percentage and of the
  average age are the differences of the current and the previous value.
\<close>

theorem calculateDelta_and_kpi_deltas:
  "calculateDelta 5 0 = 100 \<and> calculateDelta 0 0 = 0 \<and> calculateDelta 5 10 = - 50 \<and>
   (\<forall>current. 0 < current \<longrightarrow> calculateDelta current 0 = 100) \<and>
   (\<forall>current prev. prev \<noteq> 0 \<longrightarrow>
      calculateDelta current prev = (current - prev) / prev * 100) \<and>
   (let cur = calculateMetricsForPeriod env stages daysOld allOrders from to;
        prev = calculateMetricsForPeriod env stages daysOld allOrders
                 (from - (to - from)) (from - 1);
        k = kpis env stages daysOld allOrders from to
    in delta (kpi_newReferrals k) =
         calculateDelta (of_nat (newReferrals cur)) (of_nat (newReferrals prev)) \<and>
       delta (kpi_readyForPar k) =
         calculateDelta (of_nat (readyForPar cur)) (of_nat (readyForPar prev)) \<and>
       delta (kpi_denials k) =
         calculateDelta (of_nat (denialCount cur)) (of_nat (denialCount prev)) \<and>
       delta (kpi_regressions k) =
         calculateDelta (of_nat (regressionCount cur)) (of_nat (regressionCount prev)) \<and>
       delta (kpi_docsCompletePercent k) = docsCompletePercent cur - docsCompletePercent prev \<and>
       delta (kpi_avgAge k) = avgAge cur - avgAge prev)"
proof -
  have ex: "calculateDelta 5 0 = 100" "calculateDelta 0 0 = 0" "calculateDelta 5 10 = - 50"
    by (simp_all add: calculateDelta_def)
  have zero: "\<forall>current. 0 < current \<longrightarrow> calculateDelta current 0 = 100"
    by (simp add: calculateDelta_def)
  have rel: "\<forall>current prev. prev \<noteq> 0 \<longrightarrow>
      calculateDelta current prev = (current - prev) / prev * 100"
    by (simp add: calculateDelta_def)
  have k: "let cur = calculateMetricsForPeriod env stages daysOld allOrders from to;
        prev = calculateMetricsForPeriod env stages daysOld allOrders
                 (from - (to - from)) (from - 1);
        k = kpis env stages daysOld allOrders from to
    in delta (kpi_newReferrals k) =
         calculateDelta (of_nat (newReferrals cur)) (of_nat (newReferrals prev)) \<and>
       delta (kpi_readyForPar k) =
         calculateDelta (of_nat (readyForPar cur)) (of_nat (readyForPar prev)) \<and>
       delta (kpi_denials k) =
         calculateDelta (of_nat (denialCount cur)) (of_nat (denialCount prev)) \<and>
       delta (kpi_regressions k) =
         calculateDelta (of_nat (regressionCount cur)) (of_nat (regressionCount prev)) \<and>
       delta (kpi_docsCompletePercent k) = docsCompletePercent cur - docsCompletePercent prev \<and>
       delta (kpi_avgAge k) = avgAge cur - avgAge prev"
    by (simp add: kpis_def Let_def)
  show ?thesis by (intro conjI ex zero rel k)
qed

text \<open>
  The statement \<open>calculateDelta_and_kpi_deltas\<close> at two periods of six days: the
  completion percentage goes from 50 to 100 and its delta is 50, not the relative
  change 100; the average age goes from 11 to 6 and its delta is \<open>- 5\<close>.
\<close>

theorem calculateDelta_and_kpi_deltas_witness:
  "delta (kpi_newReferrals (kpis utc_env example_stages example_daysOld [order6, order7]
     1704844800000 1705363200000)) = 0 \<and>
   delta (kpi_readyForPar (kpis utc_env example_stages example_daysOld [order6, order7]
     1704844800000 1705363200000)) = 100 \<and>
   delta (kpi_docsCompletePercent (kpis utc_env example_stages example_daysOld [order6, order7]
     1704844800000 1705363200000)) = 50 \<and>
   delta (kpi_avgAge (kpis utc_env example_stages example_daysOld [order6, order7]
     1704844800000 1705363200000)) = - 5 \<and>
   calculateDelta 100 50 = 100 \<and> calculateDelta 6 11 \<noteq> - 5"
proof -
  let ?k = "kpis utc_env example_stages example_daysOld [order6, order7]
     1704844800000 1705363200000"
  let ?cur = "calculateMetricsForPeriod utc_env example_stages example_daysOld
     [order6, order7] 1704844800000 1705363200000"
  let ?prev = "calculateMetricsForPeriod utc_env example_stages example_daysOld
     [order6, order7] (1704844800000 - (1705363200000 - 1704844800000)) (1704844800000 - 1)"
  note t = calculateDelta_and_kpi_deltas
    [of utc_env example_stages example_daysOld "[order6, order7]" 1704844800000 1705363200000]
  from t have k: "delta (kpi_newReferrals ?k) =
         calculateDelta (of_nat (newReferrals ?cur)) (of_nat (newReferrals ?prev)) \<and>
       delta (kpi_readyForPar ?k) =
         calculateDelta (of_nat (readyForPar ?cur)) (of_nat (readyForPar ?prev)) \<and>
       delta (kpi_denials ?k) =
         calculateDelta (of_nat (denialCount ?cur)) (of_nat (denialCount ?prev)) \<and>
       delta (kpi_regressions ?k) =
         calculateDelta (of_nat (regressionCount ?cur)) (of_nat (regressionCount ?prev)) \<and>
       delta (kpi_docsCompletePercent ?k) =
         docsCompletePercent ?cur - docsCompletePercent ?prev \<and>
       delta (kpi_avgAge ?k) = avgAge ?cur - avgAge ?prev"
    unfolding Let_def by (elim conjE) (intro conjI, assumption+)
  have cur: "newReferrals ?cur = 1" "readyForPar ?cur = 1" "docsCompletePercent ?cur = 100"
    "avgAge ?cur = 6"
    by (simp_all add: metric_defs)
  have prev: "newReferrals ?prev = 1" "readyForPar ?prev = 0" "docsCompletePercent ?prev = 50"
    "avgAge ?prev = 11"
    by (simp_all add: metric_defs)
  have d: "calculateDelta 1 1 = 0" "calculateDelta 1 0 = 100" "calculateDelta 100 50 = 100"
    "calculateDelta 6 11 \<noteq> - 5"
    by (simp_all add: calculateDelta_def)
  from k cur prev d show ?thesis by simp
qed

end
